theory Spec2Isabelle
  imports Main "HOL-Library.Sublist" "HOL-Library.Char_ord" "HOL-Library.List_Lexorder"
    "HOL-Library.Multiset"
begin

section \<open>JavaScript values and the built-ins the components call\<close>

text \<open>
  Both components work on values that come out of \<^verbatim>\<open>JSON.parse\<close>, so a field can hold
  anything JSON can. \<open>jsval\<close> is that universe. An object is the list of its own
  properties in creation order. \<open>Num n\<close> is a number that is an integer of magnitude at most
  \<open>2^53\<close> (severities, line numbers, indices; a payload holds no other \<open>Num\<close>); any other
  number is \<open>Double t\<close>, known by the text \<open>t\<close> that \<^verbatim>\<open>String()\<close> gives for it, and is not
  zero. A string is a list of code units below 256. \<open>Native t\<close> stands for a function
  or prototype object of the platform that a computed property read can reach through a
  prototype chain: it is truthy, \<^verbatim>\<open>String()\<close> renders it as \<open>t\<close>, and it has none of the
  properties the components read by name.
\<close>

datatype jsval =
    Undefined
  | Null
  | Bool bool
  | Num int
  | Double string
  | Str string
  | Arr "jsval list"
  | Obj "(string \<times> jsval) list"
  | Native string

text \<open>
  What can be thrown: a \<^verbatim>\<open>TypeError\<close> by the modelled code itself, a \<^verbatim>\<open>SyntaxError\<close> by
  \<^verbatim>\<open>JSON.parse\<close>, and the rejection of a remote call.
\<close>

datatype error = TypeError | SyntaxError | Rejection

definition bindE :: "error + 'a \<Rightarrow> ('a \<Rightarrow> error + 'b) \<Rightarrow> error + 'b" where
  "bindE m f = (case m of Inl e \<Rightarrow> Inl e | Inr x \<Rightarrow> f x)"

text \<open>
  Running a list of computations in order: the first one that throws ends the run.
  \<open>mapE f xs\<close> is what \<^verbatim>\<open>xs.map(f)\<close> returns when \<open>f\<close> can throw.
\<close>

fun sequenceE :: "(error + 'a) list \<Rightarrow> error + 'a list" where
  "sequenceE [] = Inr []"
| "sequenceE (m # ms) =
     (case m of Inl e \<Rightarrow> Inl e
      | Inr y \<Rightarrow> (case sequenceE ms of Inl e \<Rightarrow> Inl e | Inr ys \<Rightarrow> Inr (y # ys)))"

definition mapE :: "('a \<Rightarrow> error + 'b) \<Rightarrow> 'a list \<Rightarrow> error + 'b list" where
  "mapE f xs = sequenceE (map f xs)"

text \<open>The prototype a computed property read falls back to, by the kind of the receiver.\<close>

datatype proto =
    ObjectPrototype
  | ArrayPrototype
  | StringPrototype
  | NumberPrototype
  | BooleanPrototype
  | FunctionPrototype

text \<open>
  The platform's prototype chains are not part of the repository: \<open>plat p k = Some t\<close>
  says that a value whose chain starts at \<open>p\<close> inherits a property named \<open>k\<close>, a function
  or prototype object that \<^verbatim>\<open>String()\<close> renders as \<open>t\<close>. The functions below take it as a
  parameter.
\<close>

type_synonym platform = "proto \<Rightarrow> string \<Rightarrow> string option"

fun truthy :: "jsval \<Rightarrow> bool" where
  "truthy Undefined = False"
| "truthy Null = False"
| "truthy (Bool b) = b"
| "truthy (Num n) = (n \<noteq> 0)"
| "truthy (Double t) = True"
| "truthy (Str s) = (s \<noteq> [])"
| "truthy (Arr xs) = True"
| "truthy (Obj kvs) = True"
| "truthy (Native t) = True"

subsection \<open>Number and value to string\<close>

text \<open>
  An integer of magnitude at most \<open>2^53\<close> is printed in plain decimal, every digit
  exact. Beyond that JavaScript rounds to the shortest digits that read back as the same
  double, and from \<open>10^21\<close> on it prints an exponent: such numbers, like the ones with a
  fraction, are \<open>Double t\<close> and print as \<open>t\<close>.
\<close>

definition digit :: "nat \<Rightarrow> char" where
  "digit d = ''0123456789'' ! d"

fun natToString :: "nat \<Rightarrow> string" where
  "natToString n = (if n < 10 then [digit n] else natToString (n div 10) @ [digit (n mod 10)])"

declare natToString.simps [simp del]

definition numberToString :: "int \<Rightarrow> string" where
  "numberToString i = (if i < 0 then CHR ''-'' # natToString (nat (- i)) else natToString (nat i))"

fun intercalate :: "string \<Rightarrow> string list \<Rightarrow> string" where
  "intercalate sep [] = []"
| "intercalate sep [s] = s"
| "intercalate sep (s # t # ss) = s @ sep @ intercalate sep (t # ss)"

text \<open>
  \<^verbatim>\<open>String(v)\<close>, \<^verbatim>\<open>`${v}`\<close> and the conversion of \<open>v\<close> to a property key. An array joins
  its elements with a comma, \<^verbatim>\<open>null\<close> and \<^verbatim>\<open>undefined\<close> elements as the empty string. An
  object parsed from JSON gives \<^verbatim>\<open>[object Object]\<close>, unless it has an own property
  \<^verbatim>\<open>toString\<close>: that property hides \<^verbatim>\<open>Object.prototype.toString\<close>, is not callable, and
  the conversion throws.
\<close>

fun toString :: "jsval \<Rightarrow> error + string" where
  "toString Undefined = Inr ''undefined''"
| "toString Null = Inr ''null''"
| "toString (Bool b) = Inr (if b then ''true'' else ''false'')"
| "toString (Num n) = Inr (numberToString n)"
| "toString (Double t) = Inr t"
| "toString (Str s) = Inr s"
| "toString (Arr xs) =
     (case sequenceE (map (\<lambda>x. if x = Undefined \<or> x = Null then Inr [] else toString x) xs) of
        Inl e \<Rightarrow> Inl e
      | Inr ss \<Rightarrow> Inr (intercalate '','' ss))"
| "toString (Obj kvs) =
     (if ''toString'' \<in> fst ` set kvs then Inl TypeError else Inr ''[object Object]'')"
| "toString (Native t) = Inr t"

subsection \<open>String methods\<close>

definition LF :: char where
  "LF = CHR 0x0A"

definition CR :: char where
  "CR = CHR 0x0D"

text \<open>\<^verbatim>\<open>s.includes(t)\<close>: \<open>t\<close> occurs in \<open>s\<close> as a contiguous run.\<close>

fun includes_str :: "string \<Rightarrow> string \<Rightarrow> bool" where
  "includes_str [] t = (t = [])"
| "includes_str (c # cs) t = (prefix t (c # cs) \<or> includes_str cs t)"

text \<open>
  \<^verbatim>\<open>toLowerCase\<close> on code units below 256: the ASCII capitals and the Latin-1 capitals
  (\<open>0xC0\<close> to \<open>0xDE\<close> without the multiplication sign \<open>0xD7\<close>) move up by 32. In
  these ranges the bit of weight 32 is clear, so adding 32 is setting it.
\<close>

fun plus32 :: "char \<Rightarrow> char" where
  "plus32 (Char b0 b1 b2 b3 b4 b5 b6 b7) = Char b0 b1 b2 b3 b4 True b6 b7"

definition lowerChar :: "char \<Rightarrow> char" where
  "lowerChar c =
     (let n = (of_char c :: nat)
      in if (65 \<le> n \<and> n \<le> 90) \<or> (192 \<le> n \<and> n \<le> 222 \<and> n \<noteq> 215) then plus32 c else c)"

definition toLowerCase :: "string \<Rightarrow> string" where
  "toLowerCase s = map lowerChar s"

text \<open>
  \<^verbatim>\<open>trim\<close> strips white space and line terminators from both ends; below 256 these are
  tab, line feed, vertical tab, form feed, carriage return, space and no-break space.
\<close>

definition isWhiteSpace :: "char \<Rightarrow> bool" where
  "isWhiteSpace c = ((of_char c :: nat) \<in> {9, 10, 11, 12, 13, 32, 160})"

definition trim :: "string \<Rightarrow> string" where
  "trim s = rev (dropWhile isWhiteSpace (rev (dropWhile isWhiteSpace s)))"

text \<open>\<^verbatim>\<open>s.split(/\r?\n/g)\<close>: the pieces between line breaks; never the empty list.\<close>

fun consFirst :: "char \<Rightarrow> string list \<Rightarrow> string list" where
  "consFirst c [] = [[c]]"
| "consFirst c (p # ps) = (c # p) # ps"

fun splitLines :: "string \<Rightarrow> string list" where
  "splitLines [] = [[]]"
| "splitLines [c] = (if c = LF then [[], []] else [[c]])"
| "splitLines (c # d # cs) =
     (if c = CR \<and> d = LF then [] # splitLines cs
      else if c = LF then [] # splitLines (d # cs)
      else consFirst c (splitLines (d # cs)))"

text \<open>
  \<^verbatim>\<open>s.replace(pattern, replacement)\<close> with a string pattern replaces the first occurrence
  only, and the replacement text is expanded first: \<^verbatim>\<open>$$\<close> is a dollar sign, \<^verbatim>\<open>$&\<close> the
  matched text, \<^verbatim>\<open>$\<close> followed by a backquote the text before the match, \<^verbatim>\<open>$'\<close> the text
  after it. A string pattern has no capture groups, so any other \<^verbatim>\<open>$\<close> stays as it is.
\<close>

fun getSubstitution :: "string \<Rightarrow> string \<Rightarrow> string \<Rightarrow> string \<Rightarrow> string" where
  "getSubstitution matched front back [] = []"
| "getSubstitution matched front back [c] = [c]"
| "getSubstitution matched front back (c # d # r) =
     (if c = CHR ''$'' \<and> d = CHR ''$'' then CHR ''$'' # getSubstitution matched front back r
      else if c = CHR ''$'' \<and> d = CHR ''&'' then matched @ getSubstitution matched front back r
      else if c = CHR ''$'' \<and> d = CHR 0x60 then front @ getSubstitution matched front back r
      else if c = CHR ''$'' \<and> d = CHR 0x27 then back @ getSubstitution matched front back r
      else c # getSubstitution matched front back (d # r))"

fun splitAtFirst :: "string \<Rightarrow> string \<Rightarrow> (string \<times> string) option" where
  "splitAtFirst pat [] = (if pat = [] then Some ([], []) else None)"
| "splitAtFirst pat (c # cs) =
     (if prefix pat (c # cs) then Some ([], drop (length pat) (c # cs))
      else (case splitAtFirst pat cs of
              None \<Rightarrow> None
            | Some (front, back) \<Rightarrow> Some (c # front, back)))"

definition replace :: "string \<Rightarrow> string \<Rightarrow> string \<Rightarrow> string" where
  "replace s pat replacement =
     (case splitAtFirst pat s of
        None \<Rightarrow> s
      | Some (front, back) \<Rightarrow> front @ getSubstitution pat front back replacement @ back)"

subsection \<open>Property reads\<close>

text \<open>
  \<open>getProp v name\<close> is the read \<^verbatim>\<open>v.name\<close> for the names the components spell out
  (\<^verbatim>\<open>violations\<close>, \<^verbatim>\<open>locations\<close>, \<^verbatim>\<open>file\<close>, ...). None of them is a property of a built-in
  prototype, of an array or of a string, so only an object's own properties can answer;
  reading from \<^verbatim>\<open>null\<close> or \<^verbatim>\<open>undefined\<close> throws.
\<close>

fun getProp :: "jsval \<Rightarrow> string \<Rightarrow> error + jsval" where
  "getProp Undefined k = Inl TypeError"
| "getProp Null k = Inl TypeError"
| "getProp (Obj kvs) k = Inr (case map_of kvs k of Some v \<Rightarrow> v | None \<Rightarrow> Undefined)"
| "getProp v k = Inr Undefined"

text \<open>
  An array index is a key that is the decimal text of a natural number, as
  \<open>natToString\<close> writes it (no sign, no leading zero).
\<close>

fun digitsToNat :: "nat \<Rightarrow> string \<Rightarrow> nat option" where
  "digitsToNat acc [] = Some acc"
| "digitsToNat acc (c # cs) =
     (if CHR ''0'' \<le> c \<and> c \<le> CHR ''9'' then digitsToNat (10 * acc + (of_char c - 48)) cs
      else None)"

definition parseIndex :: "string \<Rightarrow> nat option" where
  "parseIndex k =
     (if k = [] then None
      else (case digitsToNat 0 k of
              None \<Rightarrow> None
            | Some n \<Rightarrow> if natToString n = k then Some n else None))"

definition inherited :: "platform \<Rightarrow> proto \<Rightarrow> string \<Rightarrow> jsval" where
  "inherited plat p k = (case plat p k of Some t \<Rightarrow> Native t | None \<Rightarrow> Undefined)"

text \<open>
  \<open>getComputed plat v k\<close> is the read \<^verbatim>\<open>v[k]\<close> of a value that is neither \<^verbatim>\<open>null\<close> nor
  \<^verbatim>\<open>undefined\<close>, the key already converted to a string: own properties first (elements
  and \<^verbatim>\<open>length\<close> of an array, code units and \<^verbatim>\<open>length\<close> of a string, the properties of an
  object), then the prototype chain.
\<close>

fun getComputed :: "platform \<Rightarrow> jsval \<Rightarrow> string \<Rightarrow> jsval" where
  "getComputed plat (Arr xs) k =
     (case parseIndex k of
        Some i \<Rightarrow> if i < length xs then xs ! i else inherited plat ArrayPrototype k
      | None \<Rightarrow> if k = ''length'' then Num (int (length xs)) else inherited plat ArrayPrototype k)"
| "getComputed plat (Str s) k =
     (case parseIndex k of
        Some i \<Rightarrow> if i < length s then Str [s ! i] else inherited plat StringPrototype k
      | None \<Rightarrow> if k = ''length'' then Num (int (length s)) else inherited plat StringPrototype k)"
| "getComputed plat (Obj kvs) k =
     (case map_of kvs k of Some v \<Rightarrow> v | None \<Rightarrow> inherited plat ObjectPrototype k)"
| "getComputed plat (Num n) k = inherited plat NumberPrototype k"
| "getComputed plat (Double t) k = inherited plat NumberPrototype k"
| "getComputed plat (Bool b) k = inherited plat BooleanPrototype k"
| "getComputed plat (Native t) k = inherited plat FunctionPrototype k"
| "getComputed plat Undefined k = Undefined"
| "getComputed plat Null k = Undefined"

text \<open>
  The optional read \<^verbatim>\<open>base?.[key]\<close>: \<^verbatim>\<open>undefined\<close> when the base is \<^verbatim>\<open>null\<close> or
  \<^verbatim>\<open>undefined\<close> (the key is then not converted), the computed read otherwise.
\<close>

definition optComputed :: "platform \<Rightarrow> jsval \<Rightarrow> jsval \<Rightarrow> error + jsval" where
  "optComputed plat base key =
     (if base = Undefined \<or> base = Null then Inr Undefined
      else (case toString key of
              Inl e \<Rightarrow> Inl e
            | Inr k \<Rightarrow> Inr (getComputed plat base k)))"

section \<open>The violation report viewer (resultTable.js)\<close>

subsection \<open>Constants\<close>

definition UNKNOWN_FILE :: string where
  "UNKNOWN_FILE = ''Unknown File''"

definition SEVERITY_LABELS :: jsval where
  "SEVERITY_LABELS =
     Obj [(''1'', Str ''Critical''), (''2'', Str ''High''), (''3'', Str ''Moderate''),
          (''4'', Str ''Low''), (''5'', Str ''Info'')]"

text \<open>
  \<^verbatim>\<open>filePath.match(MAIN_DEFAULT_PATTERN)\<close> for the pattern
  \<^verbatim>\<open>/main\/default\/([^\/]+)\/(.+)/u\<close>. \<open>matchHere\<close> tries the pattern at the start of a
  suffix: the literal text, the longest run without a slash (not empty), a slash, and the
  longest run without a line terminator (not empty). Neither group can give characters
  back to let the rest match, so there is nothing to backtrack over. \<open>matchPattern\<close> takes
  the leftmost suffix that matches and returns the two groups.
\<close>

definition matchHere :: "string \<Rightarrow> (string \<times> string) option" where
  "matchHere s =
     (if prefix ''main/default/'' s then
        (let r = drop 13 s;
             metaType = takeWhile (\<lambda>c. c \<noteq> CHR ''/'') r;
             r' = dropWhile (\<lambda>c. c \<noteq> CHR ''/'') r;
             fileKey = takeWhile (\<lambda>c. c \<noteq> LF \<and> c \<noteq> CR) (tl r')
         in if metaType \<noteq> [] \<and> r' \<noteq> [] \<and> fileKey \<noteq> [] then Some (metaType, fileKey)
            else None)
      else None)"

fun matchPattern :: "string \<Rightarrow> (string \<times> string) option" where
  "matchPattern [] = matchHere []"
| "matchPattern (c # cs) =
     (case matchHere (c # cs) of Some g \<Rightarrow> Some g | None \<Rightarrow> matchPattern cs)"

subsection \<open>From a raw analyzer record to a Violation\<close>

text \<open>The object \<^verbatim>\<open>transformJson\<close> builds for one entry of \<^verbatim>\<open>violations\<close>, field by field.\<close>

record violation =
  v_allLocations :: jsval
  v_engine :: jsval
  v_file :: string
  v_fullViolation :: jsval
  v_id :: string
  v_line :: jsval
  v_message :: jsval
  v_resource :: jsval
  v_rule :: jsval
  v_severity :: jsval
  v_tags :: jsval
  v_severityLabel :: string

text \<open>
  \<^verbatim>\<open>extractFileAfterDefault\<close>: a falsy path is the unknown file; a string is matched against
  the pattern; any other truthy value has no callable \<^verbatim>\<open>match\<close>, and the call throws.
\<close>

definition extractFileAfterDefault :: "jsval \<Rightarrow> error + string" where
  "extractFileAfterDefault filePath =
     (if \<not> truthy filePath then Inr UNKNOWN_FILE
      else (case filePath of
              Str s \<Rightarrow>
                (case matchPattern s of
                   Some (metaType, fileKey) \<Rightarrow> Inr (metaType @ ''/'' @ fileKey)
                 | None \<Rightarrow> Inr s)
            | _ \<Rightarrow> Inl TypeError))"

text \<open>The template \<^verbatim>\<open>`${severity} (${SEVERITY_LABELS[severity] || ''})`\<close>.\<close>

definition severityLabelOf :: "platform \<Rightarrow> jsval \<Rightarrow> error + string" where
  "severityLabelOf plat sev =
     bindE (toString sev) (\<lambda>s.
       let l = getComputed plat SEVERITY_LABELS s in
       bindE (toString (if truthy l then l else Str [])) (\<lambda>t.
         Inr (s @ '' ('' @ t @ '')'')))"

text \<open>
  \<^verbatim>\<open>violation.locations?.[violation.primaryLocationIndex] || violation.locations?.[0] || {}\<close>
\<close>

definition primaryLocation :: "platform \<Rightarrow> jsval \<Rightarrow> error + jsval" where
  "primaryLocation plat violation =
     bindE (getProp violation ''locations'') (\<lambda>locations.
     bindE (getProp violation ''primaryLocationIndex'') (\<lambda>primaryLocationIndex.
     bindE (optComputed plat locations primaryLocationIndex) (\<lambda>byIndex.
       if truthy byIndex then Inr byIndex
       else bindE (optComputed plat locations (Num 0)) (\<lambda>first.
              if truthy first then Inr first else Inr (Obj [])))))"

text \<open>The callback of \<^verbatim>\<open>parsedJson.violations.map\<close> in \<^verbatim>\<open>transformJson\<close>.\<close>

definition transformViolation :: "platform \<Rightarrow> jsval \<Rightarrow> nat \<Rightarrow> error + violation" where
  "transformViolation plat violation idx =
     bindE (primaryLocation plat violation) (\<lambda>primaryLoc.
     bindE (getProp primaryLoc ''file'') (\<lambda>fullFilePath.
     bindE (extractFileAfterDefault fullFilePath) (\<lambda>displayFilePath.
     bindE (getProp violation ''locations'') (\<lambda>locations.
     bindE (getProp violation ''engine'') (\<lambda>engine.
     bindE (getProp violation ''rule'') (\<lambda>rule.
     bindE (toString rule) (\<lambda>ruleText.
     bindE (toString fullFilePath) (\<lambda>pathText.
     bindE (getProp primaryLoc ''startLine'') (\<lambda>startLine.
     bindE (toString startLine) (\<lambda>lineText.
     bindE (getProp violation ''message'') (\<lambda>message.
     bindE (getProp violation ''resources'') (\<lambda>resources.
     bindE (optComputed plat resources (Num 0)) (\<lambda>resource0.
     bindE (getProp violation ''severity'') (\<lambda>severity.
     bindE (getProp violation ''tags'') (\<lambda>tags.
     bindE (severityLabelOf plat severity) (\<lambda>label.
       Inr \<lparr> v_allLocations = locations,
             v_engine = engine,
             v_file = displayFilePath,
             v_fullViolation = violation,
             v_id = ruleText @ ''-'' @ pathText @ ''-'' @ lineText @ ''-'' @ natToString idx,
             v_line = startLine,
             v_message = message,
             v_resource = (if truthy resource0 then resource0 else Str []),
             v_rule = rule,
             v_severity = severity,
             v_tags = tags,
             v_severityLabel = label \<rparr>))))))))))))))))"

definition transformJson :: "platform \<Rightarrow> jsval \<Rightarrow> error + violation list" where
  "transformJson plat parsedJson =
     bindE (getProp parsedJson ''violations'') (\<lambda>violations.
       case violations of
         Arr xs \<Rightarrow>
           mapE (\<lambda>(violation, idx). transformViolation plat violation idx)
             (zip xs [0..<length xs])
       | _ \<Rightarrow> Inr [])"

subsection \<open>Classifying the blob\<close>

text \<open>
  What \<^verbatim>\<open>formattedJson\<close> can hold: the array of Violations, or the blob itself when it
  is shown as plain text.
\<close>

datatype formatted = Rows "violation list" | Text string

record formattedData =
  formattedJson :: formatted
  type :: string

text \<open>The reactive fields of the component that the modelled methods read or write.\<close>

record resultTable =
  this_filteredJson :: "violation list option"
  this_selectedSeverity :: jsval
  this_violationCounts :: jsval
  this_searchValue :: string
  this_formattedJson :: "formatted option"

text \<open>
  \<^verbatim>\<open>getFormattedData\<close>. \<^verbatim>\<open>JSON.parse\<close> is the platform's: the parameter \<open>JSON_parse\<close> gives
  the parsed value, or \<open>None\<close> where it throws. Whatever throws inside the \<^verbatim>\<open>try\<close> block
  ends in the \<^verbatim>\<open>catch\<close> branch; \<^verbatim>\<open>violationCounts\<close> has been assigned by then if the throw
  came from \<^verbatim>\<open>transformJson\<close>.
\<close>

definition getFormattedData ::
  "(string \<Rightarrow> jsval option) \<Rightarrow> platform \<Rightarrow> string \<Rightarrow> resultTable \<Rightarrow> formattedData \<times> resultTable" where
  "getFormattedData JSON_parse plat serializedJson this =
     (case JSON_parse serializedJson of
        None \<Rightarrow> (\<lparr> formattedJson = Text serializedJson, type = ''String'' \<rparr>, this)
      | Some parsed \<Rightarrow>
          (case getProp parsed ''violationCounts'' of
             Inl e \<Rightarrow> (\<lparr> formattedJson = Text serializedJson, type = ''String'' \<rparr>, this)
           | Inr counts \<Rightarrow>
               (let this' = this \<lparr> this_violationCounts := (if truthy counts then counts else Null) \<rparr>
                in case transformJson plat parsed of
                     Inl e \<Rightarrow> (\<lparr> formattedJson = Text serializedJson, type = ''String'' \<rparr>, this')
                   | Inr rows \<Rightarrow>
                       if rows \<noteq> [] then (\<lparr> formattedJson = Rows rows, type = ''Table'' \<rparr>, this')
                       else (\<lparr> formattedJson = Rows rows, type = ''YAML'' \<rparr>, this'))))"

subsection \<open>Severity toggle and search\<close>

text \<open>
  \<^verbatim>\<open>handleSeverityClick\<close>: \<^verbatim>\<open>event.currentTarget.dataset.severity\<close> is a string, or
  \<^verbatim>\<open>undefined\<close> when the element has no such attribute (\<open>None\<close>). The selection is
  \<^verbatim>\<open>null\<close>, \<^verbatim>\<open>undefined\<close> or a string, on which \<^verbatim>\<open>===\<close> is equality of values.
\<close>

definition handleSeverityClick :: "string option \<Rightarrow> resultTable \<Rightarrow> resultTable" where
  "handleSeverityClick dataset_severity this =
     (let severity = (case dataset_severity of None \<Rightarrow> Undefined | Some s \<Rightarrow> Str s)
      in this \<lparr> this_selectedSeverity :=
                 (if this_selectedSeverity this = severity then Null else severity) \<rparr>)"

definition handleClearFilters :: "resultTable \<Rightarrow> resultTable" where
  "handleClearFilters this =
     this \<lparr> this_selectedSeverity := Null, this_filteredJson := None, this_searchValue := [] \<rparr>"

text \<open>The keys \<^verbatim>\<open>for (const key in row)\<close> visits, in the order the row was built.\<close>

definition rowFields :: "violation \<Rightarrow> jsval list" where
  "rowFields row =
     [v_allLocations row, v_engine row, Str (v_file row), v_fullViolation row, Str (v_id row),
      v_line row, v_message row, v_resource row, v_rule row, v_severity row, v_tags row,
      Str (v_severityLabel row)]"

text \<open>The body of the filter callback of \<^verbatim>\<open>_applySearch\<close>, over the fields still to visit.\<close>

fun rowMatches :: "string \<Rightarrow> jsval list \<Rightarrow> error + bool" where
  "rowMatches searchTerm [] = Inr False"
| "rowMatches searchTerm (field # rest) =
     (case toString field of
        Inl e \<Rightarrow> Inl e
      | Inr val \<Rightarrow>
          if val \<noteq> [] \<and> includes_str (toLowerCase val) searchTerm then Inr True
          else rowMatches searchTerm rest)"

fun filterE :: "('a \<Rightarrow> error + bool) \<Rightarrow> 'a list \<Rightarrow> error + 'a list" where
  "filterE p [] = Inr []"
| "filterE p (x # xs) =
     (case p x of
        Inl e \<Rightarrow> Inl e
      | Inr b \<Rightarrow> (case filterE p xs of Inl e \<Rightarrow> Inl e | Inr ys \<Rightarrow> Inr (if b then x # ys else ys)))"

text \<open>
  \<^verbatim>\<open>_applySearch\<close>: \<^verbatim>\<open>this.formattedJson.filter\<close> exists only when \<^verbatim>\<open>formattedJson\<close> is the
  array of Violations; on a string or on \<^verbatim>\<open>undefined\<close> the call throws.
\<close>

definition applySearch :: "string \<Rightarrow> resultTable \<Rightarrow> error + resultTable" where
  "applySearch searchTerm this =
     (case this_formattedJson this of
        Some (Rows rows) \<Rightarrow>
          bindE (filterE (\<lambda>row. rowMatches searchTerm (rowFields row)) rows) (\<lambda>kept.
            Inr (this \<lparr> this_filteredJson := Some kept \<rparr>))
      | _ \<Rightarrow> Inl TypeError)"

definition clearSearch :: "resultTable \<Rightarrow> resultTable" where
  "clearSearch this = this \<lparr> this_filteredJson := None \<rparr>"

text \<open>
  \<^verbatim>\<open>handleSearch\<close> with \<^verbatim>\<open>event.target.value\<close>. The result is the component after the
  handler, and the error if \<^verbatim>\<open>_applySearch\<close> threw (the search value is stored by then).
\<close>

definition handleSearch :: "string \<Rightarrow> resultTable \<Rightarrow> error option \<times> resultTable" where
  "handleSearch val this =
     (let this1 = this \<lparr> this_searchValue := val \<rparr>;
          searchTerm = (if val \<noteq> [] then toLowerCase (trim val) else [])
      in if searchTerm = [] then (None, clearSearch this1)
         else (case applySearch searchTerm this1 of
                 Inl e \<Rightarrow> (Some e, this1)
               | Inr this2 \<Rightarrow> (None, this2)))"

text \<open>
  \<^verbatim>\<open>const data = this.filteredJson || this.formattedJson\<close>, the list every grouping getter
  displays (an array is truthy even when it is empty).
\<close>

definition displayedData :: "resultTable \<Rightarrow> formatted option" where
  "displayedData this =
     (case this_filteredJson this of
        Some rows \<Rightarrow> Some (Rows rows)
      | None \<Rightarrow> this_formattedJson this)"

definition initialResultTable :: resultTable where
  "initialResultTable =
     \<lparr> this_filteredJson = None, this_selectedSeverity = Null, this_violationCounts = Null,
       this_searchValue = [], this_formattedJson = None \<rparr>"

subsection \<open>Grouping by engine and rule\<close>

record ruleObject =
  r_engine :: jsval
  r_resource :: jsval
  r_rule :: jsval
  r_severity :: jsval
  r_tags :: jsval
  r_violations :: "violation list"

record engineObject =
  e_engine :: jsval
  e_rules :: "(string \<times> ruleObject) list"
  e_violationCount :: nat

definition createEngineObject :: "jsval \<Rightarrow> violation \<Rightarrow> engineObject" where
  "createEngineObject engine violation =
     \<lparr> e_engine = engine, e_rules = [], e_violationCount = 0 \<rparr>"

definition createRuleObject :: "violation \<Rightarrow> ruleObject" where
  "createRuleObject violation =
     \<lparr> r_engine = v_engine violation, r_resource = v_resource violation,
       r_rule = v_rule violation, r_severity = v_severity violation,
       r_tags = v_tags violation, r_violations = [] \<rparr>"

text \<open>
  The early return of the \<^verbatim>\<open>forEach\<close> callback:
  \<^verbatim>\<open>filterSeverity && String(violation.severity) !== String(filterSeverity)\<close>.
\<close>

definition filteredOut :: "jsval \<Rightarrow> violation \<Rightarrow> error + bool" where
  "filteredOut filterSeverity violation =
     (if truthy filterSeverity then
        bindE (toString (v_severity violation)) (\<lambda>a.
        bindE (toString filterSeverity) (\<lambda>b. Inr (a \<noteq> b)))
      else Inr False)"

text \<open>
  Changing the value stored under a key that the object already has; the key keeps its
  place.
\<close>

fun updateKey :: "string \<Rightarrow> ('a \<Rightarrow> 'a) \<Rightarrow> (string \<times> 'a) list \<Rightarrow> (string \<times> 'a) list" where
  "updateKey k f [] = []"
| "updateKey k f ((k', v) # kvs) =
     (if k' = k then (k', f v) # kvs else (k', v) # updateKey k f kvs)"

text \<open>
  \<^verbatim>\<open>if (!rules[key]) rules[key] = createRuleObject(violation)\<close> followed by
  \<^verbatim>\<open>rules[key].violations.push(violation)\<close>. When the key is not an own property but
  names an inherited one, the inherited value is truthy, no rule object is created, and
  \<^verbatim>\<open>.violations\<close> of the inherited value is \<^verbatim>\<open>undefined\<close>: the push throws.
\<close>

definition addToRules ::
  "platform \<Rightarrow> violation \<Rightarrow> (string \<times> ruleObject) list \<Rightarrow> error + (string \<times> ruleObject) list" where
  "addToRules plat violation rules =
     bindE (toString (v_rule violation)) (\<lambda>key.
       let push = (\<lambda>r. r \<lparr> r_violations := r_violations r @ [violation] \<rparr>) in
       case map_of rules key of
         Some r \<Rightarrow> Inr (updateKey key push rules)
       | None \<Rightarrow>
           (case plat ObjectPrototype key of
              Some t \<Rightarrow> Inl TypeError
            | None \<Rightarrow> Inr (rules @ [(key, push (createRuleObject violation))])))"

text \<open>
  The rest of the \<^verbatim>\<open>forEach\<close> callback, for a violation that passed the filter: the
  engine bucket is created if missing, the violation goes into its rule bucket, and the
  engine's count goes up by one. An engine key that names an inherited property finds a
  truthy value without \<^verbatim>\<open>rules\<close>, and the callback throws.
\<close>

definition addViolation ::
  "platform \<Rightarrow> violation \<Rightarrow> (string \<times> engineObject) list \<Rightarrow> error + (string \<times> engineObject) list" where
  "addViolation plat violation engines =
     bindE (toString (v_engine violation)) (\<lambda>key.
       case map_of engines key of
         Some e \<Rightarrow>
           bindE (addToRules plat violation (e_rules e)) (\<lambda>rules.
             Inr (updateKey key
                    (\<lambda>e. e \<lparr> e_rules := rules, e_violationCount := e_violationCount e + 1 \<rparr>)
                    engines))
       | None \<Rightarrow>
           (case plat ObjectPrototype key of
              Some t \<Rightarrow> Inl TypeError
            | None \<Rightarrow>
                (let e = createEngineObject (v_engine violation) violation in
                 bindE (addToRules plat violation (e_rules e)) (\<lambda>rules.
                   Inr (engines @
                        [(key, e \<lparr> e_rules := rules,
                                   e_violationCount := e_violationCount e + 1 \<rparr>)])))))"

fun forEachViolation ::
  "platform \<Rightarrow> jsval \<Rightarrow> violation list \<Rightarrow> (string \<times> engineObject) list
     \<Rightarrow> error + (string \<times> engineObject) list" where
  "forEachViolation plat filterSeverity [] engines = Inr engines"
| "forEachViolation plat filterSeverity (violation # rest) engines =
     (case filteredOut filterSeverity violation of
        Inl e \<Rightarrow> Inl e
      | Inr True \<Rightarrow> forEachViolation plat filterSeverity rest engines
      | Inr False \<Rightarrow>
          (case addViolation plat violation engines of
             Inl e \<Rightarrow> Inl e
           | Inr engines' \<Rightarrow> forEachViolation plat filterSeverity rest engines'))"

definition processViolationsByEngine ::
  "platform \<Rightarrow> violation list \<Rightarrow> jsval \<Rightarrow> error + (string \<times> engineObject) list" where
  "processViolationsByEngine plat violations filterSeverity =
     forEachViolation plat filterSeverity violations []"

text \<open>
  \<^verbatim>\<open>Object.values\<close>: the values of the keys that are array indices (below \<open>2^32 - 1\<close>)
  first, by ascending index, then the values of the other keys in creation order.
\<close>

definition isArrayIndex :: "string \<Rightarrow> bool" where
  "isArrayIndex k = (case parseIndex k of Some n \<Rightarrow> n < 4294967295 | None \<Rightarrow> False)"

definition indexOfKey :: "string \<Rightarrow> nat" where
  "indexOfKey k = (case parseIndex k of Some n \<Rightarrow> n | None \<Rightarrow> 0)"

definition objectValues :: "(string \<times> 'a) list \<Rightarrow> 'a list" where
  "objectValues kvs =
     map snd (sort_key (\<lambda>kv. indexOfKey (fst kv)) (filter (\<lambda>kv. isArrayIndex (fst kv)) kvs)
              @ filter (\<lambda>kv. \<not> isArrayIndex (fst kv)) kvs)"

definition engineDescriptions :: jsval where
  "engineDescriptions =
     Obj [(''cpd'', Str ''Copy-Paste Detector: Finds duplicate code blocks in Apex and other supported languages.''),
          (''eslint'', Str ''Analyzes JavaScript and Lightning Web Components for code quality and style issues.''),
          (''flow'', Str ''Analyzes Salesforce Flows for best practices, security, and maintainability issues.''),
          (''pmd'', Str ''Performs static analysis on Apex, Visualforce. Includes the PMD AppExchange rules.''),
          (''regex'', Str ''Detects code patterns using regular expressions. Useful for enforcing simple, custom rules.''),
          (''retirejs'', Str ''Scans JavaScript libraries for known security vulnerabilities.''),
          (''sfge'', Str ''Salesforce Graph Engine: Advanced static analysis for security, CRUD/FLS, and data flow in Apex.'')]"

text \<open>\<^verbatim>\<open>xs.join(sep)\<close> and \<^verbatim>\<open>Array.isArray(tags) ? tags.join(', ') : ''\<close>.\<close>

definition joinArray :: "string \<Rightarrow> jsval list \<Rightarrow> error + string" where
  "joinArray sep xs =
     bindE (mapE (\<lambda>x. if x = Undefined \<or> x = Null then Inr [] else toString x) xs) (\<lambda>ss.
       Inr (intercalate sep ss))"

definition tagsStringOf :: "jsval \<Rightarrow> error + string" where
  "tagsStringOf tags = (case tags of Arr xs \<Rightarrow> joinArray '', '' xs | _ \<Rightarrow> Inr [])"

text \<open>
  The two shapes a rule takes in the output of \<^verbatim>\<open>transformEngineObjectsToArray\<close>: the
  rule object spread with \<^verbatim>\<open>tagsString\<close> and \<^verbatim>\<open>severityLabel\<close> added, or, with
  \<^verbatim>\<open>includeKey\<close>, the object with \<^verbatim>\<open>key\<close>, \<^verbatim>\<open>label\<close>, \<^verbatim>\<open>resource\<close>, \<^verbatim>\<open>severity\<close>,
  \<^verbatim>\<open>tagsString\<close>, \<^verbatim>\<open>violations\<close> and \<^verbatim>\<open>severityLabel\<close>.
\<close>

datatype ruleRow =
    SpreadRule ruleObject string string
  | KeyedRule jsval string jsval jsval string "violation list" string

fun violationsOf :: "ruleRow \<Rightarrow> violation list" where
  "violationsOf (SpreadRule r tagsString severityLabel) = r_violations r"
| "violationsOf (KeyedRule key label resource severity tagsString violations severityLabel) =
     violations"

record engineRow =
  g_description :: jsval
  g_engine :: jsval
  g_label :: string
  g_rules :: "ruleRow list"
  g_violationCount :: nat
  g_key :: "jsval option"

definition spreadRule :: "platform \<Rightarrow> ruleObject \<Rightarrow> error + ruleRow" where
  "spreadRule plat ruleObj =
     bindE (tagsStringOf (r_tags ruleObj)) (\<lambda>tagsString.
     bindE (severityLabelOf plat (r_severity ruleObj)) (\<lambda>severityLabel.
       Inr (SpreadRule ruleObj tagsString severityLabel)))"

definition keyedRule :: "platform \<Rightarrow> ruleObject \<Rightarrow> error + ruleRow" where
  "keyedRule plat ruleObj =
     bindE (toString (r_rule ruleObj)) (\<lambda>ruleText.
     bindE (tagsStringOf (r_tags ruleObj)) (\<lambda>tagsString.
     bindE (severityLabelOf plat (r_severity ruleObj)) (\<lambda>severityLabel.
       Inr (KeyedRule (r_rule ruleObj)
              (ruleText @ '' ('' @ natToString (length (r_violations ruleObj)) @ '')'')
              (r_resource ruleObj) (r_severity ruleObj) tagsString (r_violations ruleObj)
              severityLabel))))"

text \<open>The callback of \<^verbatim>\<open>Object.values(engines).map\<close>.\<close>

definition transformEngineObject :: "platform \<Rightarrow> bool \<Rightarrow> engineObject \<Rightarrow> error + engineRow" where
  "transformEngineObject plat includeKey engineObj =
     bindE (toString (e_engine engineObj)) (\<lambda>engineText.
       let d = getComputed plat engineDescriptions engineText in
       bindE (mapE (spreadRule plat) (objectValues (e_rules engineObj))) (\<lambda>rules.
         let baseObject =
               \<lparr> g_description = (if truthy d then d else Str []),
                 g_engine = e_engine engineObj,
                 g_label = engineText @ '' ('' @ natToString (e_violationCount engineObj) @ '')'',
                 g_rules = rules,
                 g_violationCount = e_violationCount engineObj,
                 g_key = None \<rparr>
         in if includeKey then
              bindE (mapE (keyedRule plat) (objectValues (e_rules engineObj))) (\<lambda>keyed.
                Inr (baseObject \<lparr> g_key := Some (e_engine engineObj), g_rules := keyed \<rparr>))
            else Inr baseObject))"

definition transformEngineObjectsToArray ::
  "platform \<Rightarrow> (string \<times> engineObject) list \<Rightarrow> bool \<Rightarrow> error + engineRow list" where
  "transformEngineObjectsToArray plat engines includeKey =
     mapE (transformEngineObject plat includeKey) (objectValues engines)"

section \<open>The commit table action handler (userStoryCommitTableActions.js)\<close>

definition SFCC_METADATA :: string where
  "SFCC_METADATA = ''SFCC_METADATA_ITEMS''"

definition SFCC_METADATA_DIRECTORY :: string where
  "SFCC_METADATA_DIRECTORY = ''SFCC_METADATA_DIRECTORY''"

definition SFCC_SITES :: string where
  "SFCC_SITES = ''SFCC_SITES''"

text \<open>A remote call (an Apex method) either rejects or resolves with a value.\<close>

datatype 'a promise = Rejected | Resolved 'a

record commitLine =
  Operation :: string
  MemberName :: jsval
  MemberType :: jsval
  Directory :: jsval
  LastModifiedDate :: string
  LastModifiedByName :: string
  Category :: jsval

record payload =
  payload_type :: string
  payload_value :: "commitLine list"

text \<open>One entry per call of \<^verbatim>\<open>console.log\<close>.\<close>

datatype logEntry =
    LogApexError
  | LogFound "commitLine list" "commitLine list"
  | LogException

text \<open>
  The fields of the component, with what has been published on the commit page channel
  and what has been logged, oldest first.
\<close>

record commitTableActions =
  this_isWorking :: bool
  this_filtered :: "string list"
  published :: "payload list"
  console :: "logEntry list"

subsection \<open>Expanding the metadata templates\<close>

text \<open>
  The callback of \<^verbatim>\<open>metadata.reduce\<close> for one template: what it pushes on the array.
  \<open>directory\<close> is \<^verbatim>\<open>properties[this._SFCC_METADATA_DIRECTORY]\<close>, \<open>None\<close> when the property is
  missing or \<^verbatim>\<open>null\<close>; the empty string is falsy as well.
\<close>

definition expandTemplate :: "string list \<Rightarrow> string option \<Rightarrow> string \<Rightarrow> string list" where
  "expandTemplate sites directory meta =
     (if includes_str meta ''<site-id>'' then
        map (\<lambda>site.
               let result = replace meta ''<site-id>'' site
               in (case directory of
                     Some d \<Rightarrow> if d \<noteq> [] then replace meta ''metadata/'' d else result
                   | None \<Rightarrow> result))
            sites
      else
        (let result = meta
         in (case directory of
               Some d \<Rightarrow> if d \<noteq> [] then [replace meta ''metadata/'' d] else [result]
             | None \<Rightarrow> [result])))"

text \<open>
  The \<^verbatim>\<open>then\<close> callback of \<^verbatim>\<open>renderedCallback\<close> up to the assignment of
  \<^verbatim>\<open>this._filtered\<close>. The properties are a map from names to strings; a missing
  \<^verbatim>\<open>SFCC_METADATA_ITEMS\<close> has no \<^verbatim>\<open>split\<close>, and the callback throws.
\<close>

definition expandMetadata :: "(string \<Rightarrow> string option) \<Rightarrow> error + string list" where
  "expandMetadata properties =
     (case properties SFCC_METADATA of
        None \<Rightarrow> Inl TypeError
      | Some items \<Rightarrow>
          (let metadata = splitLines items;
               sites = filter (\<lambda>x. x \<noteq> [])
                         (splitLines (case properties SFCC_SITES of
                                        Some s \<Rightarrow> s
                                      | None \<Rightarrow> []))
           in Inr (concat (map (expandTemplate sites (properties SFCC_METADATA_DIRECTORY))
                             metadata))))"

subsection \<open>Retrieving the changes\<close>

text \<open>The two \<^verbatim>\<open>map\<close> callbacks of \<^verbatim>\<open>retrieveChanges\<close>.\<close>

definition changeEntry :: "jsval \<Rightarrow> error + commitLine" where
  "changeEntry e =
     bindE (getProp e ''n'') (\<lambda>n.
     bindE (getProp e ''t'') (\<lambda>t.
     bindE (getProp e ''m'') (\<lambda>m.
     bindE (getProp e ''c'') (\<lambda>c.
       Inr \<lparr> Operation = ''Add'', MemberName = n, MemberType = t, Directory = m,
             LastModifiedDate = [], LastModifiedByName = [], Category = c \<rparr>))))"

definition metadataEntry :: "string \<Rightarrow> commitLine" where
  "metadataEntry file =
     \<lparr> Operation = ''Add'', MemberName = Str file, MemberType = Str ''xml'', Directory = Str [],
       LastModifiedDate = [], LastModifiedByName = [], Category = Str ''ccmetadata'' \<rparr>"

text \<open>
  The comparator \<^verbatim>\<open>({ MemberName: a }, { MemberName: b }) => a < b ? -1 : a > b ? 1 : 0\<close>.
  On two strings \<^verbatim>\<open><\<close> compares code unit by code unit, on two integers it compares the
  numbers; what it answers on other pairs is left to the parameter \<open>lt\<close> (with
  \<^verbatim>\<open>undefined\<close> on either side the answer is \<^verbatim>\<open>false\<close>).
\<close>

definition lessThan_js :: "(jsval \<Rightarrow> jsval \<Rightarrow> bool) \<Rightarrow> jsval \<Rightarrow> jsval \<Rightarrow> bool" where
  "lessThan_js lt a b =
     (case (a, b) of
        (Str x, Str y) \<Rightarrow> x < y
      | (Num x, Num y) \<Rightarrow> x < y
      | _ \<Rightarrow> lt a b)"

definition byMemberName :: "(jsval \<Rightarrow> jsval \<Rightarrow> bool) \<Rightarrow> commitLine \<Rightarrow> commitLine \<Rightarrow> int" where
  "byMemberName lt x y =
     (let a = MemberName x; b = MemberName y
      in if lessThan_js lt a b then - 1 else if lessThan_js lt b a then 1 else 0)"

text \<open>
  \<^verbatim>\<open>Array.prototype.sort\<close> is the platform's, and the functions below take it as the
  parameter \<open>Array_sort\<close>. The language fixes its result only when the comparator is a
  consistent ordering of the elements: it answers zero on an element and itself, and
  answering zero, answering below zero and answering above zero are each transitive, the
  first also symmetric. The result then holds the same elements in ascending order, those
  the comparator calls equal in their original order; \<open>stableSort\<close> computes that
  arrangement by insertion from the right end. With any other comparator the order is
  left to the engine.
\<close>

definition consistentComparator :: "('a \<Rightarrow> 'a \<Rightarrow> int) \<Rightarrow> 'a set \<Rightarrow> bool" where
  "consistentComparator cmp S =
     ((\<forall>a\<in>S. cmp a a = 0)
      \<and> (\<forall>a\<in>S. \<forall>b\<in>S. cmp a b = 0 \<longrightarrow> cmp b a = 0)
      \<and> (\<forall>a\<in>S. \<forall>b\<in>S. \<forall>c\<in>S.
            (cmp a b = 0 \<and> cmp b c = 0 \<longrightarrow> cmp a c = 0)
          \<and> (cmp a b < 0 \<and> cmp b c < 0 \<longrightarrow> cmp a c < 0)
          \<and> (0 < cmp a b \<and> 0 < cmp b c \<longrightarrow> 0 < cmp a c)))"

fun insertSorted :: "('a \<Rightarrow> 'a \<Rightarrow> int) \<Rightarrow> 'a \<Rightarrow> 'a list \<Rightarrow> 'a list" where
  "insertSorted cmp x [] = [x]"
| "insertSorted cmp x (y # ys) =
     (if cmp x y \<le> 0 then x # y # ys else y # insertSorted cmp x ys)"

definition stableSort :: "('a \<Rightarrow> 'a \<Rightarrow> int) \<Rightarrow> 'a list \<Rightarrow> 'a list" where
  "stableSort cmp xs = foldr (insertSorted cmp) xs []"

definition sortsAsSpecified :: "(('a \<Rightarrow> 'a \<Rightarrow> int) \<Rightarrow> 'a list \<Rightarrow> 'a list) \<Rightarrow> bool" where
  "sortsAsSpecified Array_sort =
     (\<forall>cmp xs. consistentComparator cmp (set xs) \<longrightarrow> Array_sort cmp xs = stableSort cmp xs)"

text \<open>
  \<^verbatim>\<open>retrieveChanges\<close>, from the call to the end of its \<^verbatim>\<open>finally\<close> block. \<open>fetched\<close> is how
  \<^verbatim>\<open>getChangesFromUserStory\<close> settles. \<open>tryBlock\<close> is the body of the \<^verbatim>\<open>try\<close>: the payload
  to publish, or what was thrown. The remote method is called once, whatever happens.
\<close>

type_synonym sorter = "(commitLine \<Rightarrow> commitLine \<Rightarrow> int) \<Rightarrow> commitLine list \<Rightarrow> commitLine list"

definition tryBlock ::
  "(string \<Rightarrow> jsval option) \<Rightarrow> (jsval \<Rightarrow> jsval \<Rightarrow> bool) \<Rightarrow> sorter \<Rightarrow> string promise
     \<Rightarrow> string list \<Rightarrow> error + (commitLine list \<times> commitLine list \<times> payload)" where
  "tryBlock JSON_parse lt Array_sort fetched filtered =
     (case fetched of
        Rejected \<Rightarrow> Inl Rejection
      | Resolved envMetadata \<Rightarrow>
          (case JSON_parse envMetadata of
             None \<Rightarrow> Inl SyntaxError
           | Some (Arr es) \<Rightarrow>
               bindE (mapE changeEntry es) (\<lambda>envObj.
                 let allMetadataFound = map metadataEntry filtered
                 in Inr (allMetadataFound, envObj,
                         \<lparr> payload_type = ''retrievedChanges'',
                           payload_value =
                             Array_sort (byMemberName lt) (allMetadataFound @ envObj) \<rparr>))
           | Some _ \<Rightarrow> Inl TypeError))"

definition retrieveChanges ::
  "(string \<Rightarrow> jsval option) \<Rightarrow> (jsval \<Rightarrow> jsval \<Rightarrow> bool) \<Rightarrow> sorter \<Rightarrow> string promise
     \<Rightarrow> commitTableActions \<Rightarrow> commitTableActions" where
  "retrieveChanges JSON_parse lt Array_sort fetched this =
     (let this1 = this \<lparr> this_isWorking := True \<rparr>;
          this2 =
            (case tryBlock JSON_parse lt Array_sort fetched (this_filtered this1) of
               Inr (allMetadataFound, envObj, p) \<Rightarrow>
                 this1 \<lparr> console := console this1 @ [LogFound allMetadataFound envObj],
                         published := published this1 @ [p] \<rparr>
             | Inl exc \<Rightarrow> this1 \<lparr> console := console this1 @ [LogException] \<rparr>)
      in this2 \<lparr> this_isWorking := False \<rparr>)"

text \<open>
  \<^verbatim>\<open>renderedCallback\<close>: \<open>properties\<close> is how \<^verbatim>\<open>getSystemPropertiesFromPipelineOfUserStory\<close>
  settles. When the templates have been expanded, \<^verbatim>\<open>retrieveChanges\<close> is called; a
  rejection, or a throw in the \<^verbatim>\<open>then\<close> callback, is logged by the \<^verbatim>\<open>catch\<close> callback.
\<close>

definition renderedCallback ::
  "(string \<Rightarrow> jsval option) \<Rightarrow> (jsval \<Rightarrow> jsval \<Rightarrow> bool) \<Rightarrow> sorter
     \<Rightarrow> (string \<Rightarrow> string option) promise \<Rightarrow> string promise
     \<Rightarrow> commitTableActions \<Rightarrow> commitTableActions" where
  "renderedCallback JSON_parse lt Array_sort properties fetched this =
     (case properties of
        Rejected \<Rightarrow> this \<lparr> console := console this @ [LogApexError] \<rparr>
      | Resolved props \<Rightarrow>
          (case expandMetadata props of
             Inl e \<Rightarrow> this \<lparr> console := console this @ [LogApexError] \<rparr>
           | Inr filtered \<Rightarrow>
               retrieveChanges JSON_parse lt Array_sort fetched
                 (this \<lparr> this_filtered := filtered \<rparr>)))"

definition initialCommitTableActions :: commitTableActions where
  "initialCommitTableActions =
     \<lparr> this_isWorking = False, this_filtered = [], published = [], console = [] \<rparr>"

section \<open>Properties\<close>

subsection \<open>Evaluation and helper lemmas\<close>

lemmas eval_simps =
  bindE_def mapE_def transformJson_def transformViolation_def primaryLocation_def
  optComputed_def parseIndex_def natToString.simps digit_def numberToString_def inherited_def
  extractFileAfterDefault_def matchHere_def LF_def CR_def severityLabelOf_def
  SEVERITY_LABELS_def UNKNOWN_FILE_def

lemma sequenceE_map_Inr: "sequenceE (map Inr ys) = Inr ys"
  by (induction ys) simp_all

lemma sequenceE_Inr_D: "sequenceE ms = Inr ys \<Longrightarrow> ms = map Inr ys"
proof (induction ms arbitrary: ys)
  case Nil
  then show ?case by simp
next
  case (Cons m ms)
  from Cons.prems obtain y zs
    where m: "m = Inr y" and zs: "sequenceE ms = Inr zs" and ys: "ys = y # zs"
    by (auto split: sum.splits)
  from Cons.IH[OF zs] m ys show ?case by simp
qed

lemma mapE_Inr_iff: "mapE f xs = Inr ys \<longleftrightarrow> map f xs = map Inr ys"
  unfolding mapE_def using sequenceE_map_Inr sequenceE_Inr_D by metis

lemma mapE_Inr_nth:
  assumes "mapE f xs = Inr ys"
  shows "length ys = length xs" and "i < length xs \<Longrightarrow> f (xs ! i) = Inr (ys ! i)"
proof -
  from assms have eq: "map f xs = map Inr ys" by (simp add: mapE_Inr_iff)
  then show len: "length ys = length xs" by (metis length_map)
  show "i < length xs \<Longrightarrow> f (xs ! i) = Inr (ys ! i)"
  proof -
    assume i: "i < length xs"
    then have "f (xs ! i) = map f xs ! i" by simp
    also have "\<dots> = map Inr ys ! i" using eq by simp
    also have "\<dots> = Inr (ys ! i)" using i len by simp
    finally show ?thesis .
  qed
qed

lemma getProp_total:
  "parsed \<noteq> Null \<Longrightarrow> parsed \<noteq> Undefined \<Longrightarrow> \<exists>v. getProp parsed k = Inr v"
  by (cases parsed) simp_all

lemma transformJson_Arr:
  "getProp parsed ''violations'' = Inr (Arr xs) \<Longrightarrow>
   transformJson plat parsed =
     mapE (\<lambda>(violation, idx). transformViolation plat violation idx) (zip xs [0..<length xs])"
  by (simp add: transformJson_def bindE_def)

lemma transformJson_rows:
  assumes "getProp parsed ''violations'' = Inr (Arr xs)" and "transformJson plat parsed = Inr rows"
  shows "length rows = length xs"
    and "i < length xs \<Longrightarrow> transformViolation plat (xs ! i) i = Inr (rows ! i)"
proof -
  let ?f = "\<lambda>(violation, idx). transformViolation plat violation idx"
  from assms have m: "mapE ?f (zip xs [0..<length xs]) = Inr rows"
    by (simp add: transformJson_Arr)
  from mapE_Inr_nth(1)[OF m] show "length rows = length xs" by simp
  show "i < length xs \<Longrightarrow> transformViolation plat (xs ! i) i = Inr (rows ! i)"
  proof -
    assume i: "i < length xs"
    then have "?f (zip xs [0..<length xs] ! i) = Inr (rows ! i)"
      using mapE_Inr_nth(2)[OF m, of i] by simp
    with i show ?thesis by simp
  qed
qed

lemma transformJson_no_array:
  "getProp parsed ''violations'' = Inr v \<Longrightarrow> (\<forall>xs. v \<noteq> Arr xs) \<Longrightarrow>
   transformJson plat parsed = Inr []"
  by (cases v) (simp_all add: transformJson_def bindE_def)

lemma digit_props:
  assumes "d < 10"
  shows "CHR ''0'' \<le> digit d" and "digit d \<le> CHR ''9''" and "of_char (digit d) - 48 = d"
proof -
  from assms
  have "d = 0 \<or> d = 1 \<or> d = 2 \<or> d = 3 \<or> d = 4 \<or> d = 5 \<or> d = 6 \<or> d = 7 \<or> d = 8 \<or> d = 9"
    by arith
  then have "CHR ''0'' \<le> digit d \<and> digit d \<le> CHR ''9'' \<and> of_char (digit d) - 48 = d"
    by (elim disjE) (simp_all add: digit_def less_eq_char_def)
  then show "CHR ''0'' \<le> digit d" and "digit d \<le> CHR ''9''" and "of_char (digit d) - 48 = d"
    by simp_all
qed

lemma digitsToNat_snoc:
  "digitsToNat acc (cs @ [c]) =
     (case digitsToNat acc cs of
        None \<Rightarrow> None
      | Some m \<Rightarrow> if CHR ''0'' \<le> c \<and> c \<le> CHR ''9'' then Some (10 * m + (of_char c - 48)) else None)"
  by (induction cs arbitrary: acc) simp_all

lemma digitsToNat_natToString: "digitsToNat 0 (natToString n) = Some n"
proof (induction n rule: natToString.induct)
  case (1 n)
  show ?case
  proof (cases "n < 10")
    case True
    then show ?thesis
      by (subst natToString.simps) (simp add: digit_props)
  next
    case False
    have d: "n mod 10 < 10" by simp
    from False 1 have ih: "digitsToNat 0 (natToString (n div 10)) = Some (n div 10)" by simp
    show ?thesis
      by (subst natToString.simps) (simp add: False digitsToNat_snoc ih digit_props[OF d])
  qed
qed

lemma natToString_nonempty: "natToString n \<noteq> []"
  by (subst natToString.simps) simp

lemma parseIndex_natToString: "parseIndex (natToString n) = Some n"
  by (simp add: parseIndex_def digitsToNat_natToString natToString_nonempty)

lemma parseIndex_undefined: "parseIndex ''undefined'' = None"
  by (simp add: parseIndex_def less_eq_char_def)

lemma parseIndex_minus: "parseIndex (CHR ''-'' # cs) = None"
  by (simp add: parseIndex_def less_eq_char_def)

lemma getProp_other:
  "getProp v k = Inr x \<Longrightarrow> \<exists>y. getProp v k' = Inr y"
  by (cases v) simp_all

lemma numberToString_0: "numberToString 0 = ''0''"
  by (simp add: numberToString_def natToString.simps digit_def)

lemma parseIndex_0: "parseIndex ''0'' = Some 0"
  by (simp add: parseIndex_def natToString.simps digit_def less_eq_char_def)

lemma optComputed_Num0: "\<exists>r. optComputed plat base (Num 0) = Inr r"
  by (simp add: optComputed_def)

lemma optComputed_first:
  "locs \<noteq> [] \<Longrightarrow> optComputed plat (Arr locs) (Num 0) = Inr (locs ! 0)"
  by (simp add: optComputed_def numberToString_0 parseIndex_0)

lemma out_of_range_key:
  assumes "pli = Undefined \<or> (\<exists>i. pli = Num i \<and> (i < 0 \<or> int (length locs) \<le> i))"
    and "toString pli = Inr k" and "plat ArrayPrototype k = None"
  shows "getComputed plat (Arr locs) k = Undefined"
proof -
  from assms(1) consider (undef) "pli = Undefined"
    | (neg) i where "pli = Num i" "i < 0"
    | (big) i where "pli = Num i" "0 \<le> i" "int (length locs) \<le> i"
    by fastforce
  then show ?thesis
  proof cases
    case undef
    with assms(2) have "k = ''undefined''" by simp
    with assms(3) show ?thesis by (simp add: parseIndex_undefined inherited_def)
  next
    case neg
    with assms(2) obtain cs where "k = CHR ''-'' # cs" by (auto simp: numberToString_def)
    with assms(3) show ?thesis by (simp add: parseIndex_minus inherited_def)
  next
    case big
    with assms(2) have k: "k = natToString (nat i)" by (simp add: numberToString_def)
    from big have "\<not> nat i < length locs" by linarith
    with assms(3) k show ?thesis by (simp add: parseIndex_natToString inherited_def)
  qed
qed

lemma primaryLocation_fallback:
  assumes "getProp v ''locations'' = Inr (Arr locs)" and "locs \<noteq> []"
    and "getProp v ''primaryLocationIndex'' = Inr pli"
    and "pli = Undefined \<or> (\<exists>i. pli = Num i \<and> (i < 0 \<or> int (length locs) \<le> i))"
    and "toString pli = Inr k" and "plat ArrayPrototype k = None"
  shows "primaryLocation plat v = Inr (if truthy (locs ! 0) then locs ! 0 else Obj [])"
proof -
  have "optComputed plat (Arr locs) pli = Inr Undefined"
    using out_of_range_key[of pli locs k plat] assms(4,5,6) by (simp add: optComputed_def)
  with assms(1,2,3) show ?thesis
    by (simp add: primaryLocation_def bindE_def optComputed_first)
qed

lemma primaryLocation_nullish:
  assumes "getProp v ''locations'' = Inr locations"
    and "locations = Undefined \<or> locations = Null"
  shows "primaryLocation plat v = Inr (Obj [])"
proof -
  obtain pli where "getProp v ''primaryLocationIndex'' = Inr pli"
    using getProp_other[OF assms(1)] by blast
  with assms show ?thesis
    by (auto simp: primaryLocation_def bindE_def optComputed_def)
qed

lemma severityLabelOf_total:
  "toString sev = Inr s \<Longrightarrow> \<exists>l. severityLabelOf plat sev = Inr l"
  by (simp add: severityLabelOf_def bindE_def SEVERITY_LABELS_def inherited_def Let_def
      split: option.splits)

lemma extractFileAfterDefault_total:
  "\<not> truthy f \<or> (\<exists>s. f = Str s) \<Longrightarrow> \<exists>d. extractFileAfterDefault f = Inr d"
  by (auto simp: extractFileAfterDefault_def split: option.splits)

lemma transformViolation_total:
  assumes loc: "primaryLocation plat v = Inr loc"
    and fileh: "getProp loc ''file'' = Inr f" "\<not> truthy f \<or> (\<exists>s. f = Str s)"
    and line: "getProp loc ''startLine'' = Inr l" "toString l = Inr lt"
    and rule: "getProp v ''rule'' = Inr r" "toString r = Inr rt"
    and sev: "getProp v ''severity'' = Inr sv" "toString sv = Inr st"
  shows "\<exists>row. transformViolation plat v idx = Inr row \<and> v_line row = l
           \<and> extractFileAfterDefault f = Inr (v_file row)"
proof -
  obtain d where d: "extractFileAfterDefault f = Inr d"
    using extractFileAfterDefault_total[OF fileh(2)] by blast
  obtain lab where lab: "severityLabelOf plat sv = Inr lab"
    using severityLabelOf_total[OF sev(2)] by blast
  obtain locations where a: "getProp v ''locations'' = Inr locations"
    using getProp_other[OF rule(1)] by blast
  obtain engine where b: "getProp v ''engine'' = Inr engine"
    using getProp_other[OF rule(1)] by blast
  obtain message where c: "getProp v ''message'' = Inr message"
    using getProp_other[OF rule(1)] by blast
  obtain resources where e: "getProp v ''resources'' = Inr resources"
    using getProp_other[OF rule(1)] by blast
  obtain tags where g: "getProp v ''tags'' = Inr tags"
    using getProp_other[OF rule(1)] by blast
  obtain r0 where r0: "optComputed plat resources (Num 0) = Inr r0"
    using optComputed_Num0 by blast
  obtain ft where ft: "toString f = Inr ft"
    using fileh(2) by (cases f) auto
  show ?thesis
    unfolding transformViolation_def
    by (simp add: bindE_def loc fileh(1) d a b rule line c e r0 sev g lab ft)
qed


lemma mapE_total: "(\<forall>x\<in>set xs. \<exists>y. f x = Inr y) \<Longrightarrow> \<exists>ys. mapE f xs = Inr ys"
proof (induction xs)
  case Nil
  then show ?case by (simp add: mapE_def)
next
  case (Cons x xs)
  then obtain y ys where "f x = Inr y" and "mapE f xs = Inr ys" by auto
  then show ?case by (simp add: mapE_def)
qed

lemma primaryLocation_total:
  assumes "v = Obj kvs" and "getProp v ''primaryLocationIndex'' = Inr pli"
    and "toString pli = Inr k"
  shows "\<exists>loc. primaryLocation plat v = Inr loc \<and> loc \<noteq> Null \<and> loc \<noteq> Undefined"
proof -
  obtain locations where l: "getProp v ''locations'' = Inr locations"
    using getProp_other[OF assms(2)] by blast
  have "\<exists>a. optComputed plat locations pli = Inr a"
    using assms(3) by (simp add: optComputed_def)
  then obtain a where a: "optComputed plat locations pli = Inr a" by blast
  obtain b where b: "optComputed plat locations (Num 0) = Inr b"
    using optComputed_Num0 by blast
  have "primaryLocation plat v = Inr (if truthy a then a else if truthy b then b else Obj [])"
    by (simp add: primaryLocation_def bindE_def l assms(2) a b)
  moreover have "truthy a \<Longrightarrow> a \<noteq> Null \<and> a \<noteq> Undefined" by auto
  moreover have "truthy b \<Longrightarrow> b \<noteq> Null \<and> b \<noteq> Undefined" by auto
  ultimately show ?thesis by auto
qed

lemma getComputed_without_file:
  assumes "\<forall>e\<in>set locs. \<not> truthy e
             \<or> (\<exists>f. getProp e ''file'' = Inr f \<and> \<not> truthy f
                    \<and> getProp e ''startLine'' = Inr Undefined)"
    and "truthy (getComputed plat (Arr locs) k)"
  shows "\<exists>f. getProp (getComputed plat (Arr locs) k) ''file'' = Inr f \<and> \<not> truthy f
           \<and> getProp (getComputed plat (Arr locs) k) ''startLine'' = Inr Undefined"
proof (cases "parseIndex k")
  case None
  with assms(2) show ?thesis
    by (cases "k = ''length''") (simp_all add: inherited_def split: option.splits)
next
  case (Some i)
  show ?thesis
  proof (cases "i < length locs")
    case True
    then have "locs ! i \<in> set locs" by simp
    with assms(1) have "\<not> truthy (locs ! i)
             \<or> (\<exists>f. getProp (locs ! i) ''file'' = Inr f \<and> \<not> truthy f
                    \<and> getProp (locs ! i) ''startLine'' = Inr Undefined)"
      by blast
    with assms(2) Some True show ?thesis by simp
  next
    case False
    with assms(2) Some show ?thesis by (simp add: inherited_def split: option.splits)
  qed
qed

lemma primaryLocation_without_file:
  assumes "getProp w ''locations'' = Inr locations"
    and "locations = Undefined \<or> locations = Null
         \<or> (\<exists>locs p j. locations = Arr locs
               \<and> (\<forall>e\<in>set locs. \<not> truthy e
                     \<or> (\<exists>f. getProp e ''file'' = Inr f \<and> \<not> truthy f
                            \<and> getProp e ''startLine'' = Inr Undefined))
               \<and> getProp w ''primaryLocationIndex'' = Inr p \<and> toString p = Inr j)"
  shows "\<exists>loc f. primaryLocation plat w = Inr loc \<and> getProp loc ''file'' = Inr f
           \<and> \<not> truthy f \<and> getProp loc ''startLine'' = Inr Undefined"
proof (cases "locations = Undefined \<or> locations = Null")
  case True
  from primaryLocation_nullish[OF assms(1) True] show ?thesis by simp
next
  case False
  with assms(2) obtain locs p j where arr: "locations = Arr locs"
    and un: "\<forall>e\<in>set locs. \<not> truthy e
               \<or> (\<exists>f. getProp e ''file'' = Inr f \<and> \<not> truthy f
                      \<and> getProp e ''startLine'' = Inr Undefined)"
    and p: "getProp w ''primaryLocationIndex'' = Inr p" and j: "toString p = Inr j"
    by blast
  let ?a = "getComputed plat (Arr locs) j"
  let ?b = "getComputed plat (Arr locs) ''0''"
  have pl: "primaryLocation plat w
              = Inr (if truthy ?a then ?a else if truthy ?b then ?b else Obj [])"
    using assms(1) arr p j
    by (simp add: primaryLocation_def bindE_def optComputed_def numberToString_0)
  show ?thesis
  proof (cases "truthy ?a")
    case True
    with getComputed_without_file[OF un True] pl show ?thesis by simp
  next
    case na: False
    show ?thesis
    proof (cases "truthy ?b")
      case True
      with getComputed_without_file[OF un True] pl na show ?thesis by simp
    next
      case False
      with pl na show ?thesis by simp
    qed
  qed
qed

lemma transformViolation_without_file:
  assumes "getProp w ''locations'' = Inr locations"
    and "locations = Undefined \<or> locations = Null
         \<or> (\<exists>locs p j. locations = Arr locs
               \<and> (\<forall>e\<in>set locs. \<not> truthy e
                     \<or> (\<exists>f. getProp e ''file'' = Inr f \<and> \<not> truthy f
                            \<and> getProp e ''startLine'' = Inr Undefined))
               \<and> getProp w ''primaryLocationIndex'' = Inr p \<and> toString p = Inr j)"
    and "getProp w ''rule'' = Inr r" and "toString r = Inr rt"
    and "getProp w ''severity'' = Inr sv" and "toString sv = Inr st"
  shows "\<exists>row. transformViolation plat w idx = Inr row
           \<and> v_file row = ''Unknown File'' \<and> v_line row = Undefined"
proof -
  from primaryLocation_without_file[OF assms(1,2)] obtain loc f
    where loc: "primaryLocation plat w = Inr loc" and f: "getProp loc ''file'' = Inr f"
      and nf: "\<not> truthy f" and l: "getProp loc ''startLine'' = Inr Undefined"
    by blast
  from nf have c: "\<not> truthy f \<or> (\<exists>s. f = Str s)" by simp
  have u: "toString Undefined = Inr ''undefined''" by simp
  from transformViolation_total[OF loc f c l u assms(3,4,5,6), of idx]
  obtain row where row: "transformViolation plat w idx = Inr row" "v_line row = Undefined"
    "extractFileAfterDefault f = Inr (v_file row)"
    by blast
  from row(3) nf have "v_file row = ''Unknown File''"
    by (simp add: extractFileAfterDefault_def UNKNOWN_FILE_def)
  with row show ?thesis by blast
qed

lemma transformViolation_fallback:
  assumes "getProp v ''locations'' = Inr (Arr locs)" and "locs \<noteq> []" and "truthy (locs ! 0)"
    and "getProp v ''primaryLocationIndex'' = Inr pli"
    and "pli = Undefined \<or> (\<exists>i. pli = Num i \<and> (i < 0 \<or> int (length locs) \<le> i))"
    and "toString pli = Inr k" and "plat ArrayPrototype k = None"
    and "getProp (locs ! 0) ''file'' = Inr f" and "\<not> truthy f \<or> (\<exists>s. f = Str s)"
    and "getProp (locs ! 0) ''startLine'' = Inr l" and "toString l = Inr lt"
    and "getProp v ''rule'' = Inr r" and "toString r = Inr rt"
    and "getProp v ''severity'' = Inr sv" and "toString sv = Inr st"
  shows "\<exists>row. transformViolation plat v idx = Inr row \<and> v_line row = l
           \<and> extractFileAfterDefault f = Inr (v_file row)"
proof -
  have "primaryLocation plat v = Inr (locs ! 0)"
    using primaryLocation_fallback[of v locs pli k plat] assms(1-7) by simp
  from transformViolation_total[OF this assms(8-15)] show ?thesis .
qed

lemma transformJson_total:
  assumes arr: "getProp parsed ''violations'' = Inr (Arr xs)"
    and objs: "\<forall>v\<in>set xs. \<exists>kvs. v = Obj kvs"
    and conv: "\<forall>v\<in>set xs. \<forall>x. (getProp v ''rule'' = Inr x \<or> getProp v ''severity'' = Inr x
                  \<or> getProp v ''primaryLocationIndex'' = Inr x) \<longrightarrow> (\<exists>s. toString x = Inr s)"
    and locs: "\<forall>v\<in>set xs. \<forall>loc f l. primaryLocation plat v = Inr loc \<and> getProp loc ''file'' = Inr f
                  \<and> getProp loc ''startLine'' = Inr l
                \<longrightarrow> (\<not> truthy f \<or> (\<exists>s. f = Str s)) \<and> (\<exists>s. toString l = Inr s)"
  shows "\<exists>rows. transformJson plat parsed = Inr rows \<and> length rows = length xs"
proof -
  let ?f = "\<lambda>(violation, idx). transformViolation plat violation idx"
  have each: "\<exists>row. transformViolation plat v idx = Inr row" if v: "v \<in> set xs" for v idx
  proof -
    from objs v obtain kvs where kvs: "v = Obj kvs" by blast
    then obtain pli r sv where g: "getProp v ''primaryLocationIndex'' = Inr pli"
      "getProp v ''rule'' = Inr r" "getProp v ''severity'' = Inr sv"
      by simp
    from conv v g obtain k rt st where t: "toString pli = Inr k" "toString r = Inr rt"
      "toString sv = Inr st"
      by blast
    from primaryLocation_total[OF kvs g(1) t(1)] obtain loc
      where loc: "primaryLocation plat v = Inr loc" "loc \<noteq> Null" "loc \<noteq> Undefined"
      by blast
    obtain f where f: "getProp loc ''file'' = Inr f"
      using getProp_total[OF loc(2,3)] by blast
    obtain l where l: "getProp loc ''startLine'' = Inr l"
      using getProp_total[OF loc(2,3)] by blast
    from locs v loc(1) f l have c: "\<not> truthy f \<or> (\<exists>s. f = Str s)" and "\<exists>s. toString l = Inr s"
      by blast+
    then obtain lt where lt: "toString l = Inr lt" by blast
    from transformViolation_total[OF loc(1) f c l lt g(2) t(2) g(3) t(3)]
    show ?thesis by blast
  qed
  have "\<forall>p\<in>set (zip xs [0..<length xs]). \<exists>row. ?f p = Inr row"
  proof
    fix p assume "p \<in> set (zip xs [0..<length xs])"
    then have "fst p \<in> set xs" by (metis in_set_zipE prod.collapse)
    from each[OF this, of "snd p"] show "\<exists>row. ?f p = Inr row" by (simp add: case_prod_unfold)
  qed
  from mapE_total[OF this] obtain rows
    where rows: "mapE ?f (zip xs [0..<length xs]) = Inr rows" by blast
  then have "length rows = length xs" using mapE_Inr_nth(1)[OF rows] by simp
  with rows arr show ?thesis by (simp add: transformJson_Arr)
qed

lemma trim_blank: "list_all isWhiteSpace s \<Longrightarrow> trim s = []"
proof -
  assume "list_all isWhiteSpace s"
  then have d: "dropWhile isWhiteSpace s = []"
    by (simp add: list_all_iff)
  show ?thesis unfolding trim_def d by simp
qed

lemma handleSearch_blank:
  "list_all isWhiteSpace blank \<Longrightarrow>
   handleSearch blank this = (None, this \<lparr> this_searchValue := blank, this_filteredJson := None \<rparr>)"
  by (simp add: handleSearch_def trim_blank toLowerCase_def clearSearch_def Let_def)

lemma handleSearch_keeps_formattedJson:
  "this_formattedJson (snd (handleSearch val this)) = this_formattedJson this"
  by (auto simp: handleSearch_def Let_def clearSearch_def applySearch_def bindE_def
      split: sum.splits option.splits formatted.splits)

lemma rowMatches_Inr:
  "rowMatches t fs = Inr b \<Longrightarrow>
   b = (\<exists>f\<in>set fs. \<exists>text. toString f = Inr text \<and> text \<noteq> [] \<and> includes_str (toLowerCase text) t)"
proof (induction fs)
  case Nil
  then show ?case by simp
next
  case (Cons f fs)
  then show ?case by (auto split: sum.splits if_splits)
qed

lemma filterE_Inr:
  "filterE p xs = Inr ys \<Longrightarrow> ys = filter (\<lambda>x. p x = Inr True) xs \<and> (\<forall>x\<in>set xs. \<exists>b. p x = Inr b)"
proof (induction xs arbitrary: ys)
  case Nil
  then show ?case by simp
next
  case (Cons x xs)
  then show ?case by (auto split: sum.splits if_splits)
qed

lemma includes_nonempty: "t \<noteq> [] \<Longrightarrow> includes_str (toLowerCase text) t \<Longrightarrow> text \<noteq> []"
  by (auto simp: toLowerCase_def)

lemma applySearch_filter:
  assumes "this_formattedJson this = Some (Rows rows)" and "t \<noteq> []"
    and "applySearch t this = Inr this'"
  shows "this' = this \<lparr> this_filteredJson :=
            Some (filter (\<lambda>row. \<exists>f\<in>set (rowFields row). \<exists>text. toString f = Inr text
                                   \<and> includes_str (toLowerCase text) t) rows) \<rparr>"
proof -
  let ?p = "\<lambda>row. rowMatches t (rowFields row)"
  from assms(1,3) obtain kept where kept: "filterE ?p rows = Inr kept"
    and this': "this' = this \<lparr> this_filteredJson := Some kept \<rparr>"
    by (auto simp: applySearch_def bindE_def split: sum.splits)
  from filterE_Inr[OF kept] have k: "kept = filter (\<lambda>x. ?p x = Inr True) rows"
    and tot: "\<forall>x\<in>set rows. \<exists>b. ?p x = Inr b" by auto
  have "filter (\<lambda>x. ?p x = Inr True) rows
      = filter (\<lambda>row. \<exists>f\<in>set (rowFields row). \<exists>text. toString f = Inr text
                                   \<and> includes_str (toLowerCase text) t) rows"
  proof (rule filter_cong[OF refl])
    fix row assume "row \<in> set rows"
    with tot obtain b where b: "?p row = Inr b" by blast
    from rowMatches_Inr[OF b] includes_nonempty[OF assms(2)]
    show "(?p row = Inr True) = (\<exists>f\<in>set (rowFields row). \<exists>text. toString f = Inr text
                                   \<and> includes_str (toLowerCase text) t)"
      using b by auto
  qed
  with k this' show ?thesis by simp
qed

lemmas search_simps =
  handleSearch_def applySearch_def clearSearch_def displayedData_def rowFields_def bindE_def
  trim_def isWhiteSpace_def toLowerCase_def lowerChar_def initialResultTable_def Let_def

lemma byMemberName_strings:
  "MemberName x = Str a \<Longrightarrow> MemberName y = Str b \<Longrightarrow>
   byMemberName lt x y = (if a < b then - 1 else if b < a then 1 else 0)"
  by (simp add: byMemberName_def lessThan_js_def Let_def)

lemma byMemberName_le:
  "MemberName x = Str a \<Longrightarrow> MemberName y = Str b \<Longrightarrow> (byMemberName lt x y \<le> 0) = (a \<le> b)"
  by (auto simp: byMemberName_strings)

lemma byMemberName_consistent:
  assumes "\<forall>y\<in>S. \<exists>b. MemberName y = Str b"
  shows "consistentComparator (byMemberName lt) S"
  unfolding consistentComparator_def
proof (intro conjI ballI impI)
  fix a assume "a \<in> S"
  with assms obtain x where "MemberName a = Str x" by blast
  then show "byMemberName lt a a = 0" by (simp add: byMemberName_strings)
next
  fix a b assume "a \<in> S" "b \<in> S" and z: "byMemberName lt a b = 0"
  with assms obtain x y where "MemberName a = Str x" "MemberName b = Str y" by blast
  with z show "byMemberName lt b a = 0" by (auto simp: byMemberName_strings split: if_splits)
next
  fix a b c assume "a \<in> S" "b \<in> S" "c \<in> S"
  with assms obtain x y z
    where n: "MemberName a = Str x" "MemberName b = Str y" "MemberName c = Str z"
    by blast
  {
    assume "byMemberName lt a b = 0 \<and> byMemberName lt b c = 0"
    with n show "byMemberName lt a c = 0"
      by (auto simp: byMemberName_strings split: if_splits)
  }
  {
    assume "byMemberName lt a b < 0 \<and> byMemberName lt b c < 0"
    with n show "byMemberName lt a c < 0"
      by (auto simp: byMemberName_strings split: if_splits)
  }
  {
    assume "0 < byMemberName lt a b \<and> 0 < byMemberName lt b c"
    with n show "0 < byMemberName lt a c"
      by (auto simp: byMemberName_strings split: if_splits)
  }
qed

lemma insertSorted_insort_key:
  assumes "\<exists>a. MemberName x = Str a" and "\<forall>y\<in>set ys. \<exists>b. MemberName y = Str b"
  shows "insertSorted (byMemberName lt) x ys
         = insort_key (\<lambda>e. case MemberName e of Str s \<Rightarrow> s | _ \<Rightarrow> []) x ys"
  using assms
proof (induction ys)
  case Nil
  then show ?case by simp
next
  case (Cons y ys)
  from Cons.prems obtain a b where ab: "MemberName x = Str a" "MemberName y = Str b" by auto
  from Cons show ?case by (simp add: byMemberName_le[OF ab] ab)
qed

lemma stableSort_sort_key:
  assumes "\<forall>y\<in>set xs. \<exists>b. MemberName y = Str b"
  shows "stableSort (byMemberName lt) xs
         = sort_key (\<lambda>e. case MemberName e of Str s \<Rightarrow> s | _ \<Rightarrow> []) xs"
  using assms
proof (induction xs)
  case Nil
  then show ?case by (simp add: stableSort_def)
next
  case (Cons x xs)
  let ?k = "\<lambda>e. case MemberName e of Str s \<Rightarrow> s | _ \<Rightarrow> []"
  from Cons have ih: "stableSort (byMemberName lt) xs = sort_key ?k xs" by simp
  have "set (sort_key ?k xs) = set xs" by simp
  with Cons.prems have all: "\<forall>y\<in>set (sort_key ?k xs). \<exists>b. MemberName y = Str b" by simp
  from Cons.prems have x: "\<exists>a. MemberName x = Str a" by simp
  have "stableSort (byMemberName lt) (x # xs)
          = insertSorted (byMemberName lt) x (stableSort (byMemberName lt) xs)"
    by (simp add: stableSort_def)
  also have "\<dots> = insort_key ?k x (sort_key ?k xs)"
    using insertSorted_insort_key[OF x all] ih by simp
  finally show ?case by (simp add: sort_key_def)
qed

lemma Array_sort_sort_key:
  assumes "sortsAsSpecified Array_sort" and "\<forall>y\<in>set xs. \<exists>b. MemberName y = Str b"
  shows "Array_sort (byMemberName lt) xs
         = sort_key (\<lambda>e. case MemberName e of Str s \<Rightarrow> s | _ \<Rightarrow> []) xs"
proof -
  from byMemberName_consistent[OF assms(2)] assms(1)
  have "Array_sort (byMemberName lt) xs = stableSort (byMemberName lt) xs"
    by (simp add: sortsAsSpecified_def)
  with stableSort_sort_key[OF assms(2)] show ?thesis by simp
qed

lemma changeEntry_Inr:
  "e \<noteq> Null \<Longrightarrow> e \<noteq> Undefined \<Longrightarrow>
   \<exists>n t m c. getProp e ''n'' = Inr n \<and> getProp e ''t'' = Inr t \<and> getProp e ''m'' = Inr m
     \<and> getProp e ''c'' = Inr c
     \<and> changeEntry e = Inr \<lparr> Operation = ''Add'', MemberName = n, MemberType = t, Directory = m,
             LastModifiedDate = [], LastModifiedByName = [], Category = c \<rparr>"
  by (cases e) (simp_all add: changeEntry_def bindE_def)


lemma getProp_Inr_not_nullish: "getProp e k = Inr x \<Longrightarrow> e \<noteq> Null \<and> e \<noteq> Undefined"
  by (cases e) simp_all

lemma updateKey_keys: "map fst (updateKey k f kvs) = map fst kvs"
  by (induction kvs) auto

lemma updateKey_sum:
  assumes "map_of kvs k = Some v"
  shows "sum_list (map (\<lambda>kv. h (snd kv)) (updateKey k f kvs)) + h v
         = sum_list (map (\<lambda>kv. h (snd kv)) kvs) + (h (f v) :: nat)"
  using assms
proof (induction kvs)
  case Nil
  then show ?case by simp
next
  case (Cons kv kvs)
  then show ?case by (cases kv) (auto split: if_splits)
qed

lemma updateKey_set:
  assumes "map_of kvs k = Some v"
  shows "set (updateKey k f kvs) \<subseteq> insert (k, f v) (set kvs)"
  using assms
proof (induction kvs)
  case Nil
  then show ?case by simp
next
  case (Cons kv kvs)
  then show ?case by (cases kv) (auto split: if_splits)
qed

lemma map_of_None_keys: "map_of kvs k = None \<Longrightarrow> k \<notin> set (map fst kvs)"
  by (simp add: map_of_eq_None_iff)

lemma addToRules_count:
  assumes "addToRules plat v rules = Inr rules'"
  shows "sum_list (map (\<lambda>kv. length (r_violations (snd kv))) rules')
         = sum_list (map (\<lambda>kv. length (r_violations (snd kv))) rules) + 1"
proof -
  let ?h = "\<lambda>r. length (r_violations r)"
  let ?push = "\<lambda>r. r \<lparr> r_violations := r_violations r @ [v] \<rparr>"
  from assms obtain key where key: "toString (v_rule v) = Inr key"
    by (auto simp: addToRules_def bindE_def split: sum.splits)
  show ?thesis
  proof (cases "map_of rules key")
    case None
    with assms key have "rules' = rules @ [(key, ?push (createRuleObject v))]"
      by (auto simp: addToRules_def bindE_def Let_def split: option.splits)
    then show ?thesis by (simp add: createRuleObject_def)
  next
    case (Some r)
    with assms key have r': "rules' = updateKey key ?push rules"
      by (simp add: addToRules_def bindE_def Let_def)
    from updateKey_sum[OF Some, of ?h ?push] r' show ?thesis by simp
  qed
qed

lemma addViolation_count:
  assumes "addViolation plat v engines = Inr engines'" and "\<forall>kv\<in>set engines.
            e_violationCount (snd kv)
            = sum_list (map (\<lambda>r. length (r_violations (snd r))) (e_rules (snd kv)))"
  shows "(\<forall>kv\<in>set engines'.
          e_violationCount (snd kv)
          = sum_list (map (\<lambda>r. length (r_violations (snd r))) (e_rules (snd kv))))
       \<and> sum_list (map (\<lambda>kv. e_violationCount (snd kv)) engines')
         = sum_list (map (\<lambda>kv. e_violationCount (snd kv)) engines) + 1"
proof -
  let ?c = "\<lambda>e. e_violationCount e"
  from assms(1) obtain key where key: "toString (v_engine v) = Inr key"
    by (auto simp: addViolation_def bindE_def split: sum.splits)
  show ?thesis
  proof (cases "map_of engines key")
    case None
    let ?e = "createEngineObject (v_engine v) v"
    from assms(1) key None obtain rules where rules: "addToRules plat v (e_rules ?e) = Inr rules"
      and e': "engines' = engines @ [(key, ?e \<lparr> e_rules := rules,
                                   e_violationCount := e_violationCount ?e + 1 \<rparr>)]"
      by (auto simp: addViolation_def bindE_def Let_def split: option.splits sum.splits)
    from addToRules_count[OF rules]
    have "sum_list (map (\<lambda>r. length (r_violations (snd r))) rules) = 1"
      by (simp add: createEngineObject_def)
    with e' assms(2) show ?thesis by (simp add: createEngineObject_def)
  next
    case (Some e)
    let ?f = "\<lambda>rules e. e \<lparr> e_rules := rules, e_violationCount := e_violationCount e + 1 \<rparr>"
    from assms(1) key Some obtain rules where rules: "addToRules plat v (e_rules e) = Inr rules"
      and e': "engines' = updateKey key (?f rules) engines"
      by (auto simp: addViolation_def bindE_def Let_def split: sum.splits)
    from Some have mem: "(key, e) \<in> set engines" by (rule map_of_SomeD)
    with assms(2) have ce: "e_violationCount e
        = sum_list (map (\<lambda>r. length (r_violations (snd r))) (e_rules e))"
      by auto
    from addToRules_count[OF rules] ce
    have new: "e_violationCount (?f rules e)
        = sum_list (map (\<lambda>r. length (r_violations (snd r))) (e_rules (?f rules e)))"
      by simp
    have "\<forall>kv\<in>set engines'.
            e_violationCount (snd kv)
            = sum_list (map (\<lambda>r. length (r_violations (snd r))) (e_rules (snd kv)))"
    proof
      fix kv assume "kv \<in> set engines'"
      with e' updateKey_set[OF Some, of "?f rules"]
      have "kv = (key, ?f rules e) \<or> kv \<in> set engines" by auto
      then show "e_violationCount (snd kv)
        = sum_list (map (\<lambda>r. length (r_violations (snd r))) (e_rules (snd kv)))"
        using new assms(2) by auto
    qed
    moreover from updateKey_sum[OF Some, of ?c "?f rules"] e'
    have "sum_list (map (\<lambda>kv. e_violationCount (snd kv)) engines')
         = sum_list (map (\<lambda>kv. e_violationCount (snd kv)) engines) + 1"
      by simp
    ultimately show ?thesis by simp
  qed
qed

lemma forEachViolation_count:
  assumes "forEachViolation plat flt vs engines = Inr engines'" and "\<forall>kv\<in>set engines.
            e_violationCount (snd kv)
            = sum_list (map (\<lambda>r. length (r_violations (snd r))) (e_rules (snd kv)))"
  shows "(\<forall>kv\<in>set engines'.
          e_violationCount (snd kv)
          = sum_list (map (\<lambda>r. length (r_violations (snd r))) (e_rules (snd kv))))
       \<and> sum_list (map (\<lambda>kv. e_violationCount (snd kv)) engines')
         = sum_list (map (\<lambda>kv. e_violationCount (snd kv)) engines)
           + length (filter (\<lambda>v. filteredOut flt v = Inr False) vs)"
  using assms
proof (induction vs arbitrary: engines)
  case Nil
  then show ?case by simp
next
  case (Cons v vs)
  from Cons.prems(1) obtain b where b: "filteredOut flt v = Inr b"
    by (auto split: sum.splits)
  show ?case
  proof (cases b)
    case True
    with b Cons.prems have "forEachViolation plat flt vs engines = Inr engines'" by simp
    from Cons.IH[OF this Cons.prems(2)] b True show ?thesis by simp
  next
    case False
    with b Cons.prems(1) obtain mid where mid: "addViolation plat v engines = Inr mid"
      and rest: "forEachViolation plat flt vs mid = Inr engines'"
      by (auto split: sum.splits)
    from addViolation_count[OF mid Cons.prems(2)] Cons.IH[OF rest] b False
    show ?thesis by simp
  qed
qed

lemma processViolationsByEngine_count:
  assumes "processViolationsByEngine plat vs flt = Inr engines"
  shows "(\<forall>kv\<in>set engines.
          e_violationCount (snd kv)
          = sum_list (map (\<lambda>r. length (r_violations (snd r))) (e_rules (snd kv))))
       \<and> sum_list (map (\<lambda>kv. e_violationCount (snd kv)) engines)
         = length (filter (\<lambda>v. filteredOut flt v = Inr False) vs)"
  using forEachViolation_count[of plat flt vs "[]" engines] assms
  by (simp add: processViolationsByEngine_def)


lemma objectValues_mset: "mset (objectValues kvs) = image_mset snd (mset kvs)"
proof -
  let ?P = "\<lambda>kv. isArrayIndex (fst kv)"
  have "mset (filter ?P kvs) + mset (filter (\<lambda>kv. \<not> ?P kv) kvs) = mset kvs"
    by (induction kvs) simp_all
  then show ?thesis
    by (simp add: objectValues_def flip: image_mset_union)
qed

lemma sum_objectValues:
  fixes h :: "'a \<Rightarrow> nat"
  shows "sum_list (map h (objectValues kvs)) = sum_list (map (\<lambda>kv. h (snd kv)) kvs)"
proof -
  have "sum_list (map h (objectValues kvs)) = sum_mset (image_mset h (mset (objectValues kvs)))"
    by (metis mset_map sum_mset_sum_list)
  also have "\<dots> = sum_mset (image_mset (\<lambda>kv. h (snd kv)) (mset kvs))"
    by (simp add: objectValues_mset image_mset.compositionality comp_def)
  also have "\<dots> = sum_list (map (\<lambda>kv. h (snd kv)) kvs)"
    by (metis mset_map sum_mset_sum_list)
  finally show ?thesis .
qed

lemma set_objectValues: "set (objectValues kvs) = snd ` set kvs"
  by (metis objectValues_mset set_image_mset set_mset_mset)

lemma mapE_map:
  assumes "mapE f xs = Inr ys" and "\<And>x y. f x = Inr y \<Longrightarrow> g y = h x"
  shows "map g ys = map h xs"
proof -
  from assms(1) have len: "length ys = length xs" by (rule mapE_Inr_nth(1))
  show ?thesis
  proof (rule nth_equalityI)
    show "length (map g ys) = length (map h xs)" using len by simp
  next
    fix i assume "i < length (map g ys)"
    then have i: "i < length xs" using len by simp
    from mapE_Inr_nth(2)[OF assms(1) i] assms(2) have "g (ys ! i) = h (xs ! i)" by blast
    with i len show "map g ys ! i = map h xs ! i" by simp
  qed
qed

lemma spreadRule_violations: "spreadRule plat r = Inr row \<Longrightarrow> violationsOf row = r_violations r"
  by (auto simp: spreadRule_def bindE_def split: sum.splits)

lemma keyedRule_violations: "keyedRule plat r = Inr row \<Longrightarrow> violationsOf row = r_violations r"
  by (auto simp: keyedRule_def bindE_def split: sum.splits)

lemma transformEngineObject_row:
  assumes "transformEngineObject plat includeKey e = Inr g"
  shows "g_violationCount g = e_violationCount e"
    and "map violationsOf (g_rules g) = map r_violations (objectValues (e_rules e))"
proof -
  from assms obtain engineText rules
    where rules: "mapE (spreadRule plat) (objectValues (e_rules e)) = Inr rules"
      and etext: "toString (e_engine e) = Inr engineText"
    by (auto simp: transformEngineObject_def bindE_def Let_def split: sum.splits)
  show "g_violationCount g = e_violationCount e"
    using assms rules etext
    by (auto simp: transformEngineObject_def bindE_def Let_def split: sum.splits if_splits)
  show "map violationsOf (g_rules g) = map r_violations (objectValues (e_rules e))"
  proof (cases includeKey)
    case True
    with assms rules etext obtain keyed
      where keyed: "mapE (keyedRule plat) (objectValues (e_rules e)) = Inr keyed"
        and g: "g_rules g = keyed"
      by (auto simp: transformEngineObject_def bindE_def Let_def split: sum.splits)
    from mapE_map[OF keyed keyedRule_violations] g show ?thesis by simp
  next
    case False
    with assms rules etext have "g_rules g = rules"
      by (auto simp: transformEngineObject_def bindE_def Let_def)
    with mapE_map[OF rules spreadRule_violations] show ?thesis by simp
  qed
qed

subsection \<open>The violation report viewer\<close>

text \<open>
  C1, as the code has it: when \<^verbatim>\<open>JSON.parse\<close> succeeds with a value other than \<^verbatim>\<open>null\<close>,
  then (a) if that value has a non-empty \<^verbatim>\<open>violations\<close> array and \<^verbatim>\<open>transformJson\<close> maps it
  without throwing, the result type is \<^verbatim>\<open>Table\<close> and \<^verbatim>\<open>formattedJson\<close> holds one Violation
  per entry, the \<open>i\<close>-th made from the \<open>i\<close>-th entry; (b) if it has no \<^verbatim>\<open>violations\<close> array, or
  an empty one, the result type is \<^verbatim>\<open>YAML\<close> and \<^verbatim>\<open>formattedJson\<close> is empty.
\<close>

theorem getFormattedData_classification:
  assumes "JSON_parse serializedJson = Some parsed"
    and "parsed \<noteq> Null" and "parsed \<noteq> Undefined"
  shows "(getProp parsed ''violations'' = Inr (Arr xs) \<and> xs \<noteq> []
            \<and> transformJson plat parsed = Inr rows
          \<longrightarrow> fst (getFormattedData JSON_parse plat serializedJson this)
                = \<lparr> formattedJson = Rows rows, type = ''Table'' \<rparr>
              \<and> length rows = length xs
              \<and> (\<forall>i<length xs. transformViolation plat (xs ! i) i = Inr (rows ! i)))
       \<and> ((\<forall>ys. getProp parsed ''violations'' = Inr (Arr ys) \<longrightarrow> ys = [])
          \<longrightarrow> fst (getFormattedData JSON_parse plat serializedJson this)
                = \<lparr> formattedJson = Rows [], type = ''YAML'' \<rparr>)"
proof (intro conjI impI)
  obtain counts where counts: "getProp parsed ''violationCounts'' = Inr counts"
    using getProp_total[OF assms(2,3)] by blast
  {
    assume h: "getProp parsed ''violations'' = Inr (Arr xs) \<and> xs \<noteq> []
                 \<and> transformJson plat parsed = Inr rows"
    then have len: "length rows = length xs" using transformJson_rows(1) by blast
    with h have "rows \<noteq> []" by auto
    with h assms(1) counts
    show "fst (getFormattedData JSON_parse plat serializedJson this)
            = \<lparr> formattedJson = Rows rows, type = ''Table'' \<rparr>"
      by (simp add: getFormattedData_def Let_def)
    show "length rows = length xs" by (rule len)
    show "\<forall>i<length xs. transformViolation plat (xs ! i) i = Inr (rows ! i)"
      using h transformJson_rows(2) by blast
  }
  {
    assume h: "\<forall>ys. getProp parsed ''violations'' = Inr (Arr ys) \<longrightarrow> ys = []"
    obtain v where v: "getProp parsed ''violations'' = Inr v"
      using getProp_total[OF assms(2,3)] by blast
    have "transformJson plat parsed = Inr []"
    proof (cases "\<exists>ys. v = Arr ys")
      case True
      with h v have "v = Arr []" by auto
      with v show ?thesis by (simp add: transformJson_Arr mapE_def)
    next
      case False
      with v show ?thesis by (simp add: transformJson_no_array)
    qed
    with assms(1) counts
    show "fst (getFormattedData JSON_parse plat serializedJson this)
            = \<lparr> formattedJson = Rows [], type = ''YAML'' \<rparr>"
      by (simp add: getFormattedData_def Let_def)
  }
qed

theorem getFormattedData_classification_witness:
  \<open>fst (getFormattedData
          [''{"violations":[{"engine":"pmd","locations":[{"file":"a.cls"}]}]}'' \<mapsto>
             Obj [(''violations'',
                   Arr [Obj [(''engine'', Str ''pmd''),
                             (''locations'', Arr [Obj [(''file'', Str ''a.cls'')]])]])]]
          (\<lambda>p k. None)
          ''{"violations":[{"engine":"pmd","locations":[{"file":"a.cls"}]}]}''
          initialResultTable)
     = \<lparr> formattedJson =
           Rows [\<lparr> v_allLocations = Arr [Obj [(''file'', Str ''a.cls'')]],
                   v_engine = Str ''pmd'',
                   v_file = ''a.cls'',
                   v_fullViolation =
                     Obj [(''engine'', Str ''pmd''),
                          (''locations'', Arr [Obj [(''file'', Str ''a.cls'')]])],
                   v_id = ''undefined-a.cls-undefined-0'',
                   v_line = Undefined,
                   v_message = Undefined,
                   v_resource = Str [],
                   v_rule = Undefined,
                   v_severity = Undefined,
                   v_tags = Undefined,
                   v_severityLabel = ''undefined ()'' \<rparr>],
         type = ''Table'' \<rparr>
   \<and> fst (getFormattedData [''{"total":0}'' \<mapsto> Obj [(''total'', Num 0)]] (\<lambda>p k. None)
            ''{"total":0}'' initialResultTable)
     = \<lparr> formattedJson = Rows [], type = ''YAML'' \<rparr>\<close>
  using getFormattedData_classification
          [of \<open>[''{"violations":[{"engine":"pmd","locations":[{"file":"a.cls"}]}]}'' \<mapsto>
                 Obj [(''violations'',
                       Arr [Obj [(''engine'', Str ''pmd''),
                                 (''locations'', Arr [Obj [(''file'', Str ''a.cls'')]])]])]]\<close>
              \<open>''{"violations":[{"engine":"pmd","locations":[{"file":"a.cls"}]}]}''\<close>
              \<open>Obj [(''violations'',
                     Arr [Obj [(''engine'', Str ''pmd''),
                               (''locations'', Arr [Obj [(''file'', Str ''a.cls'')]])]])]\<close>
              \<open>[Obj [(''engine'', Str ''pmd''),
                     (''locations'', Arr [Obj [(''file'', Str ''a.cls'')]])]]\<close>
              \<open>\<lambda>p k. None\<close>
              \<open>[\<lparr> v_allLocations = Arr [Obj [(''file'', Str ''a.cls'')]],
                   v_engine = Str ''pmd'',
                   v_file = ''a.cls'',
                   v_fullViolation =
                     Obj [(''engine'', Str ''pmd''),
                          (''locations'', Arr [Obj [(''file'', Str ''a.cls'')]])],
                   v_id = ''undefined-a.cls-undefined-0'',
                   v_line = Undefined,
                   v_message = Undefined,
                   v_resource = Str [],
                   v_rule = Undefined,
                   v_severity = Undefined,
                   v_tags = Undefined,
                   v_severityLabel = ''undefined ()'' \<rparr>]\<close>
              initialResultTable]
        getFormattedData_classification
          [of \<open>[''{"total":0}'' \<mapsto> Obj [(''total'', Num 0)]]\<close> \<open>''{"total":0}''\<close>
              \<open>Obj [(''total'', Num 0)]\<close> _ \<open>\<lambda>p k. None\<close> _ initialResultTable]
  by (simp add: eval_simps)

text \<open>
  C1 as stated fails on \<^verbatim>\<open>{"violations":[]}\<close>: the parsed value has a \<^verbatim>\<open>violations\<close> array,
  and the result type is \<^verbatim>\<open>YAML\<close>, not \<^verbatim>\<open>Table\<close>.
\<close>

theorem getFormattedData_empty_violations_counterexample:
  \<open>getProp (Obj [(''violations'', Arr [])]) ''violations'' = Inr (Arr [])
   \<and> type (fst (getFormattedData
                  [''{"violations":[]}'' \<mapsto> Obj [(''violations'', Arr [])]] (\<lambda>p k. None)
                  ''{"violations":[]}'' initialResultTable))
      = ''YAML''
   \<and> type (fst (getFormattedData
                  [''{"violations":[]}'' \<mapsto> Obj [(''violations'', Arr [])]] (\<lambda>p k. None)
                  ''{"violations":[]}'' initialResultTable))
      \<noteq> ''Table''\<close>
  by (simp add: getFormattedData_def transformJson_def bindE_def mapE_def)

text \<open>
  C2: for the parsed payload
  \<^verbatim>\<open>{"violations":[{"engine":"pmd","rule":"R1","severity":3,"locations":[{"file":
  "main/default/classes/Foo.cls","startLine":10}],"primaryLocationIndex":0,"message":"m",
  "resources":["Foo"],"tags":[]}]}\<close>
  \<^verbatim>\<open>transformJson\<close> returns exactly one Violation, whose file is \<^verbatim>\<open>classes/Foo.cls\<close>, whose
  engine is \<^verbatim>\<open>pmd\<close> and whose line is 10, on every platform.
\<close>

theorem transformJson_sample_payload:
  "\<exists>v. transformJson plat
          (Obj [(''violations'',
                 Arr [Obj [(''engine'', Str ''pmd''), (''rule'', Str ''R1''), (''severity'', Num 3),
                           (''locations'',
                            Arr [Obj [(''file'', Str ''main/default/classes/Foo.cls''),
                                      (''startLine'', Num 10)]]),
                           (''primaryLocationIndex'', Num 0), (''message'', Str ''m''),
                           (''resources'', Arr [Str ''Foo'']), (''tags'', Arr [])]])])
        = Inr [v]
      \<and> v_file v = ''classes/Foo.cls'' \<and> v_engine v = Str ''pmd'' \<and> v_line v = Num 10"
  by (simp add: eval_simps)

text \<open>
  C10, as the code has it. (a) \<^verbatim>\<open>transformJson\<close> returns one Violation per entry for a
  payload whose \<^verbatim>\<open>violations\<close> array holds objects in which \<^verbatim>\<open>rule\<close>, \<^verbatim>\<open>severity\<close> and
  \<^verbatim>\<open>primaryLocationIndex\<close> convert to strings, and whose resolved location has a \<^verbatim>\<open>file\<close>
  that is falsy or a string and a \<^verbatim>\<open>startLine\<close> that converts to a string. (b) When
  \<^verbatim>\<open>primaryLocationIndex\<close> is missing, negative or not below the length of the
  \<^verbatim>\<open>locations\<close> array (arrays inheriting nothing under that key) and \<^verbatim>\<open>locations[0]\<close> is
  truthy, the Violation is made from \<^verbatim>\<open>locations[0]\<close>: its line is the \<^verbatim>\<open>startLine\<close> of
  \<^verbatim>\<open>locations[0]\<close> and its file is the display path of the \<^verbatim>\<open>file\<close> of \<^verbatim>\<open>locations[0]\<close>.
  (c) When there is no usable location at all, that is \<^verbatim>\<open>locations\<close> is missing, \<^verbatim>\<open>null\<close>,
  or an array whose entries are all falsy or without a truthy \<^verbatim>\<open>file\<close> and without a
  \<^verbatim>\<open>startLine\<close> (the empty array, \<^verbatim>\<open>[null]\<close>, \<^verbatim>\<open>[{}]\<close>), the Violation has the file
  \<^verbatim>\<open>Unknown File\<close> and the line \<^verbatim>\<open>undefined\<close>, whatever the index is. In (b) and (c)
  \<^verbatim>\<open>rule\<close> and \<^verbatim>\<open>severity\<close> convert to strings, and in (b) the \<^verbatim>\<open>file\<close> of
  \<^verbatim>\<open>locations[0]\<close> is falsy or a string and its \<^verbatim>\<open>startLine\<close> converts to a string.
\<close>

theorem transformJson_total_and_fallback:
  "(getProp parsed ''violations'' = Inr (Arr xs)
      \<and> (\<forall>v\<in>set xs. \<exists>kvs. v = Obj kvs)
      \<and> (\<forall>v\<in>set xs. \<forall>x. (getProp v ''rule'' = Inr x \<or> getProp v ''severity'' = Inr x
              \<or> getProp v ''primaryLocationIndex'' = Inr x) \<longrightarrow> (\<exists>s. toString x = Inr s))
      \<and> (\<forall>v\<in>set xs. \<forall>loc f l. primaryLocation plat v = Inr loc \<and> getProp loc ''file'' = Inr f
              \<and> getProp loc ''startLine'' = Inr l
            \<longrightarrow> (\<not> truthy f \<or> (\<exists>s. f = Str s)) \<and> (\<exists>s. toString l = Inr s))
    \<longrightarrow> (\<exists>rows. transformJson plat parsed = Inr rows \<and> length rows = length xs))
   \<and> (getProp v ''locations'' = Inr (Arr locs) \<and> locs \<noteq> [] \<and> truthy (locs ! 0)
        \<and> getProp v ''primaryLocationIndex'' = Inr pli
        \<and> (pli = Undefined \<or> (\<exists>i. pli = Num i \<and> (i < 0 \<or> int (length locs) \<le> i)))
        \<and> toString pli = Inr k \<and> plat ArrayPrototype k = None
        \<and> getProp (locs ! 0) ''file'' = Inr f0 \<and> (\<not> truthy f0 \<or> (\<exists>s. f0 = Str s))
        \<and> getProp (locs ! 0) ''startLine'' = Inr l0 \<and> toString l0 = Inr lt0
        \<and> getProp v ''rule'' = Inr r0 \<and> toString r0 = Inr rt0
        \<and> getProp v ''severity'' = Inr sv0 \<and> toString sv0 = Inr st0
      \<longrightarrow> primaryLocation plat v = Inr (locs ! 0)
          \<and> (\<exists>row. transformViolation plat v idx0 = Inr row \<and> v_line row = l0
                 \<and> extractFileAfterDefault f0 = Inr (v_file row)))
   \<and> (getProp w ''locations'' = Inr locations
        \<and> (locations = Undefined \<or> locations = Null
            \<or> (\<exists>ls p j. locations = Arr ls
                  \<and> (\<forall>e\<in>set ls. \<not> truthy e
                        \<or> (\<exists>f. getProp e ''file'' = Inr f \<and> \<not> truthy f
                               \<and> getProp e ''startLine'' = Inr Undefined))
                  \<and> getProp w ''primaryLocationIndex'' = Inr p \<and> toString p = Inr j))
        \<and> getProp w ''rule'' = Inr r \<and> toString r = Inr rt
        \<and> getProp w ''severity'' = Inr sv \<and> toString sv = Inr st
      \<longrightarrow> (\<exists>row. transformViolation plat w idx = Inr row
             \<and> v_file row = ''Unknown File'' \<and> v_line row = Undefined))"
proof (intro conjI impI)
  assume "getProp parsed ''violations'' = Inr (Arr xs)
      \<and> (\<forall>v\<in>set xs. \<exists>kvs. v = Obj kvs)
      \<and> (\<forall>v\<in>set xs. \<forall>x. (getProp v ''rule'' = Inr x \<or> getProp v ''severity'' = Inr x
              \<or> getProp v ''primaryLocationIndex'' = Inr x) \<longrightarrow> (\<exists>s. toString x = Inr s))
      \<and> (\<forall>v\<in>set xs. \<forall>loc f l. primaryLocation plat v = Inr loc \<and> getProp loc ''file'' = Inr f
              \<and> getProp loc ''startLine'' = Inr l
            \<longrightarrow> (\<not> truthy f \<or> (\<exists>s. f = Str s)) \<and> (\<exists>s. toString l = Inr s))"
  then show "\<exists>rows. transformJson plat parsed = Inr rows \<and> length rows = length xs"
    using transformJson_total[of parsed xs plat] by blast
next
  assume h: "getProp v ''locations'' = Inr (Arr locs) \<and> locs \<noteq> [] \<and> truthy (locs ! 0)
        \<and> getProp v ''primaryLocationIndex'' = Inr pli
        \<and> (pli = Undefined \<or> (\<exists>i. pli = Num i \<and> (i < 0 \<or> int (length locs) \<le> i)))
        \<and> toString pli = Inr k \<and> plat ArrayPrototype k = None
        \<and> getProp (locs ! 0) ''file'' = Inr f0 \<and> (\<not> truthy f0 \<or> (\<exists>s. f0 = Str s))
        \<and> getProp (locs ! 0) ''startLine'' = Inr l0 \<and> toString l0 = Inr lt0
        \<and> getProp v ''rule'' = Inr r0 \<and> toString r0 = Inr rt0
        \<and> getProp v ''severity'' = Inr sv0 \<and> toString sv0 = Inr st0"
  then show "primaryLocation plat v = Inr (locs ! 0)"
    using primaryLocation_fallback[of v locs pli k plat] by simp
  from h show "\<exists>row. transformViolation plat v idx0 = Inr row \<and> v_line row = l0
                 \<and> extractFileAfterDefault f0 = Inr (v_file row)"
    using transformViolation_fallback[of v locs pli k plat f0 l0 lt0 r0 rt0 sv0 st0 idx0]
    by blast
next
  assume h: "getProp w ''locations'' = Inr locations
        \<and> (locations = Undefined \<or> locations = Null
            \<or> (\<exists>ls p j. locations = Arr ls
                  \<and> (\<forall>e\<in>set ls. \<not> truthy e
                        \<or> (\<exists>f. getProp e ''file'' = Inr f \<and> \<not> truthy f
                               \<and> getProp e ''startLine'' = Inr Undefined))
                  \<and> getProp w ''primaryLocationIndex'' = Inr p \<and> toString p = Inr j))
        \<and> getProp w ''rule'' = Inr r \<and> toString r = Inr rt
        \<and> getProp w ''severity'' = Inr sv \<and> toString sv = Inr st"
  then show "\<exists>row. transformViolation plat w idx = Inr row
             \<and> v_file row = ''Unknown File'' \<and> v_line row = Undefined"
    using transformViolation_without_file[of w locations r rt sv st plat idx] by blast
qed

theorem transformJson_total_and_fallback_witness:
  "(\<exists>rows. transformJson (\<lambda>p k. None)
             (Obj [(''violations'',
                    Arr [Obj [(''rule'', Str ''R1''),
                              (''locations'',
                               Arr [Obj [(''file'', Str ''a.cls''), (''startLine'', Num 3)]])],
                         Obj []])])
           = Inr rows \<and> length rows = 2)
   \<and> (\<exists>row. transformViolation (\<lambda>p k. None)
               (Obj [(''rule'', Str ''R1''),
                     (''locations'',
                      Arr [Obj [(''file'', Str ''main/default/classes/A.cls''),
                                (''startLine'', Num 4)]]),
                     (''primaryLocationIndex'', Num 7)])
               0
             = Inr row
          \<and> v_line row = Num 4 \<and> v_file row = ''classes/A.cls'')
   \<and> (\<exists>row. transformViolation (\<lambda>p k. None)
               (Obj [(''rule'', Str ''R1''), (''locations'', Arr [Null, Obj []]),
                     (''primaryLocationIndex'', Num 1)])
               0
             = Inr row
          \<and> v_file row = ''Unknown File'' \<and> v_line row = Undefined)"
proof -
  note t = transformJson_total_and_fallback
    [where plat = "\<lambda>p k. None"
       and parsed = "Obj [(''violations'',
                    Arr [Obj [(''rule'', Str ''R1''),
                              (''locations'',
                               Arr [Obj [(''file'', Str ''a.cls''), (''startLine'', Num 3)]])],
                         Obj []])]"
       and xs = "[Obj [(''rule'', Str ''R1''),
                              (''locations'',
                               Arr [Obj [(''file'', Str ''a.cls''), (''startLine'', Num 3)]])],
                         Obj []]"
       and v = "Obj [(''rule'', Str ''R1''),
                     (''locations'',
                      Arr [Obj [(''file'', Str ''main/default/classes/A.cls''),
                                (''startLine'', Num 4)]]),
                     (''primaryLocationIndex'', Num 7)]"
       and locs = "[Obj [(''file'', Str ''main/default/classes/A.cls''),
                         (''startLine'', Num 4)]]"
       and pli = "Num 7" and k = "''7''"
       and ?f0.0 = "Str ''main/default/classes/A.cls''" and ?l0.0 = "Num 4"
       and ?lt0.0 = "''4''" and ?r0.0 = "Str ''R1''" and ?rt0.0 = "''R1''"
       and ?sv0.0 = Undefined and ?st0.0 = "''undefined''" and ?idx0.0 = 0
       and w = "Obj [(''rule'', Str ''R1''), (''locations'', Arr [Null, Obj []]),
                     (''primaryLocationIndex'', Num 1)]"
       and locations = "Arr [Null, Obj []]"
       and r = "Str ''R1''" and rt = "''R1''" and sv = Undefined and st = "''undefined''"
       and idx = 0]
  have e: "extractFileAfterDefault (Str ''main/default/classes/A.cls'') = Inr ''classes/A.cls''"
    by (simp add: extractFileAfterDefault_def matchHere_def LF_def CR_def)
  show ?thesis
    using t e
    by (auto simp add: primaryLocation_def optComputed_def bindE_def parseIndex_def
        natToString.simps digit_def numberToString_def inherited_def numeral_2_eq_2)
qed

text \<open>
  C10 as stated fails on \<^verbatim>\<open>{"violations":[{"locations":[{"file":5}]}]}\<close>: the entry is an
  object, its location's \<^verbatim>\<open>file\<close> is the number 5, which is truthy and has no \<^verbatim>\<open>match\<close>
  method, and \<^verbatim>\<open>transformJson\<close> throws.
\<close>

theorem transformJson_numeric_file_counterexample:
  "transformJson (\<lambda>p k. None)
     (Obj [(''violations'', Arr [Obj [(''locations'', Arr [Obj [(''file'', Num 5)]])]])])
   = Inl TypeError"
  by (simp add: eval_simps)

text \<open>
  C4: whenever \<^verbatim>\<open>JSON.parse\<close> throws on the input, \<^verbatim>\<open>getFormattedData\<close> returns type
  \<^verbatim>\<open>String\<close> with the input string itself as \<^verbatim>\<open>formattedJson\<close>, and leaves the component
  as it was.
\<close>

theorem getFormattedData_parse_failure:
  "JSON_parse serializedJson = None \<Longrightarrow>
   getFormattedData JSON_parse plat serializedJson this =
     (\<lparr> formattedJson = Text serializedJson, type = ''String'' \<rparr>, this)"
  by (simp add: getFormattedData_def)

theorem getFormattedData_parse_failure_witness:
  "getFormattedData Map.empty (\<lambda>p k. None) ''{oops'' initialResultTable =
     (\<lparr> formattedJson = Text ''{oops'', type = ''String'' \<rparr>, initialResultTable)"
  using getFormattedData_parse_failure [of Map.empty "''{oops''" "\<lambda>p k. None" initialResultTable]
  by simp

text \<open>
  C7: from a component with no severity selected, two clicks on the same severity button
  (whatever its \<^verbatim>\<open>data-severity\<close>) give back the component as it was; in particular
  \<^verbatim>\<open>selectedSeverity\<close> is \<^verbatim>\<open>null\<close> again.
\<close>

theorem handleSeverityClick_twice:
  "this_selectedSeverity this = Null \<Longrightarrow>
   handleSeverityClick s (handleSeverityClick s this) = this
   \<and> this_selectedSeverity (handleSeverityClick s (handleSeverityClick s this)) = Null"
  by (cases s) (simp_all add: handleSeverityClick_def)

theorem handleSeverityClick_twice_witness:
  "this_selectedSeverity initialResultTable = Null
   \<and> this_selectedSeverity (handleSeverityClick (Some ''3'') initialResultTable) = Str ''3''
   \<and> handleSeverityClick (Some ''3'') (handleSeverityClick (Some ''3'') initialResultTable)
       = initialResultTable"
  using handleSeverityClick_twice [of initialResultTable "Some ''3''"]
  by (simp add: initialResultTable_def handleSeverityClick_def)

text \<open>
  C8, as the code has it. (a) After any search, a search with an empty or blank value
  leaves no filtered list, and the displayed list is \<^verbatim>\<open>formattedJson\<close> again, which no
  search changes. (b) While a search is active (the trimmed, lowercased value is not empty
  and the handler did not throw), the displayed list keeps exactly the rows of
  \<^verbatim>\<open>formattedJson\<close> in which some field, converted to a string and lowercased, contains
  the trimmed, lowercased value.
\<close>

theorem handleSearch_clear_and_filter:
  "(list_all isWhiteSpace blank \<longrightarrow>
      this_filteredJson (snd (handleSearch blank (snd (handleSearch val this)))) = None
      \<and> displayedData (snd (handleSearch blank (snd (handleSearch val this)))) = this_formattedJson this
      \<and> fst (handleSearch blank (snd (handleSearch val this))) = None)
   \<and> (this_formattedJson this = Some (Rows rows) \<and> toLowerCase (trim val) \<noteq> []
        \<and> fst (handleSearch val this) = None \<longrightarrow>
      displayedData (snd (handleSearch val this))
        = Some (Rows (filter (\<lambda>row. \<exists>field\<in>set (rowFields row). \<exists>text.
                                toString field = Inr text
                                \<and> includes_str (toLowerCase text) (toLowerCase (trim val)))
                       rows)))"
proof (intro conjI impI)
  assume b: "list_all isWhiteSpace blank"
  let ?mid = "snd (handleSearch val this)"
  from handleSearch_blank[OF b, of ?mid]
  show "this_filteredJson (snd (handleSearch blank ?mid)) = None"
    and "fst (handleSearch blank ?mid) = None"
    by simp_all
  from handleSearch_blank[OF b, of ?mid] handleSearch_keeps_formattedJson[of val this]
  show "displayedData (snd (handleSearch blank ?mid)) = this_formattedJson this"
    by (simp add: displayedData_def)
next
  assume h: "this_formattedJson this = Some (Rows rows) \<and> toLowerCase (trim val) \<noteq> []
        \<and> fst (handleSearch val this) = None"
  let ?t = "toLowerCase (trim val)"
  let ?this1 = "this \<lparr> this_searchValue := val \<rparr>"
  from h have ne: "val \<noteq> []" by (auto simp: trim_def toLowerCase_def)
  from h ne obtain this2 where a: "applySearch ?t ?this1 = Inr this2"
    and r: "handleSearch val this = (None, this2)"
    by (auto simp: handleSearch_def Let_def split: sum.splits)
  from h have f: "this_formattedJson ?this1 = Some (Rows rows)" by simp
  from applySearch_filter[OF f _ a] h r
  show "displayedData (snd (handleSearch val this))
        = Some (Rows (filter (\<lambda>row. \<exists>field\<in>set (rowFields row). \<exists>text.
                                toString field = Inr text
                                \<and> includes_str (toLowerCase text) (toLowerCase (trim val)))
                       rows))"
    by (simp add: displayedData_def)
qed


theorem handleSearch_clear_and_filter_witness:
  "displayedData
     (snd (handleSearch ''  ''
        (snd (handleSearch ''Pmd ''
           (initialResultTable \<lparr> this_formattedJson :=
              Some (Rows [\<lparr> v_allLocations = Undefined, v_engine = Str ''PMD'',
                            v_file = ''a.cls'', v_fullViolation = Obj [(''engine'', Str ''PMD'')],
                            v_id = ''x-0'', v_line = Undefined, v_message = Undefined,
                            v_resource = Str [], v_rule = Undefined, v_severity = Undefined,
                            v_tags = Undefined, v_severityLabel = ''undefined ()'' \<rparr>,
                          \<lparr> v_allLocations = Undefined, v_engine = Str ''eslint'',
                            v_file = ''b.js'', v_fullViolation = Obj [(''engine'', Str ''eslint'')],
                            v_id = ''x-1'', v_line = Undefined, v_message = Undefined,
                            v_resource = Str [], v_rule = Undefined, v_severity = Undefined,
                            v_tags = Undefined, v_severityLabel = ''undefined ()'' \<rparr>]) \<rparr>)))))
   = Some (Rows [\<lparr> v_allLocations = Undefined, v_engine = Str ''PMD'',
                            v_file = ''a.cls'', v_fullViolation = Obj [(''engine'', Str ''PMD'')],
                            v_id = ''x-0'', v_line = Undefined, v_message = Undefined,
                            v_resource = Str [], v_rule = Undefined, v_severity = Undefined,
                            v_tags = Undefined, v_severityLabel = ''undefined ()'' \<rparr>,
                          \<lparr> v_allLocations = Undefined, v_engine = Str ''eslint'',
                            v_file = ''b.js'', v_fullViolation = Obj [(''engine'', Str ''eslint'')],
                            v_id = ''x-1'', v_line = Undefined, v_message = Undefined,
                            v_resource = Str [], v_rule = Undefined, v_severity = Undefined,
                            v_tags = Undefined, v_severityLabel = ''undefined ()'' \<rparr>])
   \<and> displayedData
        (snd (handleSearch ''Pmd ''
           (initialResultTable \<lparr> this_formattedJson :=
              Some (Rows [\<lparr> v_allLocations = Undefined, v_engine = Str ''PMD'',
                            v_file = ''a.cls'', v_fullViolation = Obj [(''engine'', Str ''PMD'')],
                            v_id = ''x-0'', v_line = Undefined, v_message = Undefined,
                            v_resource = Str [], v_rule = Undefined, v_severity = Undefined,
                            v_tags = Undefined, v_severityLabel = ''undefined ()'' \<rparr>,
                          \<lparr> v_allLocations = Undefined, v_engine = Str ''eslint'',
                            v_file = ''b.js'', v_fullViolation = Obj [(''engine'', Str ''eslint'')],
                            v_id = ''x-1'', v_line = Undefined, v_message = Undefined,
                            v_resource = Str [], v_rule = Undefined, v_severity = Undefined,
                            v_tags = Undefined, v_severityLabel = ''undefined ()'' \<rparr>]) \<rparr>)))
     = Some (Rows [\<lparr> v_allLocations = Undefined, v_engine = Str ''PMD'',
                            v_file = ''a.cls'', v_fullViolation = Obj [(''engine'', Str ''PMD'')],
                            v_id = ''x-0'', v_line = Undefined, v_message = Undefined,
                            v_resource = Str [], v_rule = Undefined, v_severity = Undefined,
                            v_tags = Undefined, v_severityLabel = ''undefined ()'' \<rparr>])"
  using handleSearch_clear_and_filter
    [where blank = "''  ''" and val = "''Pmd ''"
       and this = "initialResultTable \<lparr> this_formattedJson :=
              Some (Rows [\<lparr> v_allLocations = Undefined, v_engine = Str ''PMD'',
                            v_file = ''a.cls'', v_fullViolation = Obj [(''engine'', Str ''PMD'')],
                            v_id = ''x-0'', v_line = Undefined, v_message = Undefined,
                            v_resource = Str [], v_rule = Undefined, v_severity = Undefined,
                            v_tags = Undefined, v_severityLabel = ''undefined ()'' \<rparr>,
                          \<lparr> v_allLocations = Undefined, v_engine = Str ''eslint'',
                            v_file = ''b.js'', v_fullViolation = Obj [(''engine'', Str ''eslint'')],
                            v_id = ''x-1'', v_line = Undefined, v_message = Undefined,
                            v_resource = Str [], v_rule = Undefined, v_severity = Undefined,
                            v_tags = Undefined, v_severityLabel = ''undefined ()'' \<rparr>]) \<rparr>"
       and rows = "[\<lparr> v_allLocations = Undefined, v_engine = Str ''PMD'',
                            v_file = ''a.cls'', v_fullViolation = Obj [(''engine'', Str ''PMD'')],
                            v_id = ''x-0'', v_line = Undefined, v_message = Undefined,
                            v_resource = Str [], v_rule = Undefined, v_severity = Undefined,
                            v_tags = Undefined, v_severityLabel = ''undefined ()'' \<rparr>,
                          \<lparr> v_allLocations = Undefined, v_engine = Str ''eslint'',
                            v_file = ''b.js'', v_fullViolation = Obj [(''engine'', Str ''eslint'')],
                            v_id = ''x-1'', v_line = Undefined, v_message = Undefined,
                            v_resource = Str [], v_rule = Undefined, v_severity = Undefined,
                            v_tags = Undefined, v_severityLabel = ''undefined ()'' \<rparr>]"]
  by (simp add: search_simps)

text \<open>
  C8 as stated fails on case: the row \<^verbatim>\<open>transformJson\<close> makes for an entry with engine
  \<^verbatim>\<open>PMD\<close> is kept by the search for \<^verbatim>\<open>pmd\<close>, and no field of it, converted to a string,
  contains \<^verbatim>\<open>pmd\<close>.
\<close>

theorem handleSearch_case_counterexample:
  "let row = \<lparr> v_allLocations = Arr [Obj [(''file'', Str ''a.cls'')]],
                 v_engine = Str ''PMD'',
                 v_file = ''a.cls'',
                 v_fullViolation =
                   Obj [(''engine'', Str ''PMD''),
                        (''locations'', Arr [Obj [(''file'', Str ''a.cls'')]])],
                 v_id = ''undefined-a.cls-undefined-0'',
                 v_line = Undefined,
                 v_message = Undefined,
                 v_resource = Str [],
                 v_rule = Undefined,
                 v_severity = Undefined,
                 v_tags = Undefined,
                 v_severityLabel = ''undefined ()'' \<rparr>;
       this = initialResultTable \<lparr> this_formattedJson := Some (Rows [row]) \<rparr>
   in transformJson (\<lambda>p k. None)
        (Obj [(''violations'',
               Arr [Obj [(''engine'', Str ''PMD''),
                         (''locations'', Arr [Obj [(''file'', Str ''a.cls'')]])]])])
      = Inr [row]
      \<and> handleSearch ''pmd'' this
          = (None, this \<lparr> this_searchValue := ''pmd'', this_filteredJson := Some [row] \<rparr>)
      \<and> displayedData (snd (handleSearch ''pmd'' this)) = Some (Rows [row])
      \<and> \<not> list_ex (\<lambda>field. case toString field of
                                Inr text \<Rightarrow> includes_str text ''pmd''
                              | Inl e \<Rightarrow> False)
                   (rowFields row)"
  by (simp add: search_simps mapE_def transformJson_def transformViolation_def
      primaryLocation_def optComputed_def parseIndex_def natToString.simps digit_def
      numberToString_def inherited_def extractFileAfterDefault_def matchHere_def
      severityLabelOf_def SEVERITY_LABELS_def UNKNOWN_FILE_def)

text \<open>
  C9: whenever \<^verbatim>\<open>processViolationsByEngine\<close> returns for a violation list and a severity
  filter, and \<^verbatim>\<open>transformEngineObjectsToArray\<close> (with or without keys) returns for its
  result, then in every engine of the array the violation lists of the rules add up to the
  engine's \<^verbatim>\<open>violationCount\<close>, and the counts of all engines add up to the number of
  violations that the severity filter lets through.
\<close>

theorem engine_grouping_counts:
  assumes "processViolationsByEngine plat violations filterSeverity = Inr engines"
    and "transformEngineObjectsToArray plat engines includeKey = Inr rows"
  shows "(\<forall>g\<in>set rows.
            sum_list (map (\<lambda>r. length (violationsOf r)) (g_rules g)) = g_violationCount g)
       \<and> sum_list (map g_violationCount rows)
           = length (filter (\<lambda>v. filteredOut filterSeverity v = Inr False) violations)"
proof
  note inv = processViolationsByEngine_count[OF assms(1)]
  let ?xs = "objectValues engines"
  from assms(2) have m: "mapE (transformEngineObject plat includeKey) ?xs = Inr rows"
    by (simp add: transformEngineObjectsToArray_def)
  show "\<forall>g\<in>set rows.
            sum_list (map (\<lambda>r. length (violationsOf r)) (g_rules g)) = g_violationCount g"
  proof
    fix g assume "g \<in> set rows"
    then obtain i where i: "i < length rows" "g = rows ! i" by (metis in_set_conv_nth)
    from mapE_Inr_nth(1)[OF m] i have i': "i < length ?xs" by simp
    let ?e = "?xs ! i"
    from mapE_Inr_nth(2)[OF m i'] i(2)
    have t: "transformEngineObject plat includeKey ?e = Inr g" by simp
    from i' have "?e \<in> snd ` set engines" using set_objectValues nth_mem by metis
    with inv have c: "e_violationCount ?e
        = sum_list (map (\<lambda>r. length (r_violations (snd r))) (e_rules ?e))"
      by auto
    have "sum_list (map (\<lambda>r. length (violationsOf r)) (g_rules g))
        = sum_list (map length (map violationsOf (g_rules g)))"
      by (simp add: comp_def)
    also have "\<dots> = sum_list (map length (map r_violations (objectValues (e_rules ?e))))"
      using transformEngineObject_row(2)[OF t] by simp
    also have "\<dots> = sum_list (map (\<lambda>r. length (r_violations r)) (objectValues (e_rules ?e)))"
      by (simp add: comp_def)
    also have "\<dots> = sum_list (map (\<lambda>r. length (r_violations (snd r))) (e_rules ?e))"
      by (rule sum_objectValues)
    also have "\<dots> = g_violationCount g"
      using c transformEngineObject_row(1)[OF t] by simp
    finally show "sum_list (map (\<lambda>r. length (violationsOf r)) (g_rules g)) = g_violationCount g" .
  qed
  have "map g_violationCount rows = map e_violationCount ?xs"
    using mapE_map[OF m] transformEngineObject_row(1) by blast
  then have "sum_list (map g_violationCount rows) = sum_list (map e_violationCount ?xs)"
    by simp
  also have "\<dots> = sum_list (map (\<lambda>kv. e_violationCount (snd kv)) engines)"
    by (rule sum_objectValues)
  finally show "sum_list (map g_violationCount rows)
           = length (filter (\<lambda>v. filteredOut filterSeverity v = Inr False) violations)"
    using inv by simp
qed


theorem engine_grouping_counts_witness:
  "\<exists>engines rows.
     processViolationsByEngine (\<lambda>p k. None)
       [\<lparr> v_allLocations = Undefined, v_engine = Str ''pmd'', v_file = ''a.cls'',
           v_fullViolation = Obj [], v_id = ''R1-a.cls-1-0'', v_line = Num 1,
           v_message = Str ''m'', v_resource = Str [], v_rule = Str ''R1'',
           v_severity = Num 3, v_tags = Arr [Str ''Security''],
           v_severityLabel = ''3 (Moderate)'' \<rparr>,
        \<lparr> v_allLocations = Undefined, v_engine = Str ''eslint'', v_file = ''b.js'',
           v_fullViolation = Obj [], v_id = ''no-var-b.js-2-1'', v_line = Num 2,
           v_message = Str ''m'', v_resource = Str [], v_rule = Str ''no-var'',
           v_severity = Num 2, v_tags = Arr [], v_severityLabel = ''2 (High)'' \<rparr>,
        \<lparr> v_allLocations = Undefined, v_engine = Str ''pmd'', v_file = ''c.cls'',
           v_fullViolation = Obj [], v_id = ''R2-c.cls-3-2'', v_line = Num 3,
           v_message = Str ''m'', v_resource = Str [], v_rule = Str ''R2'',
           v_severity = Num 3, v_tags = Arr [], v_severityLabel = ''3 (Moderate)'' \<rparr>]
       (Str ''3'')
     = Inr engines
     \<and> transformEngineObjectsToArray (\<lambda>p k. None) engines True = Inr rows
     \<and> map g_label rows = [''pmd (2)'']
     \<and> list_all (\<lambda>g. sum_list (map (\<lambda>r. length (violationsOf r)) (g_rules g))
                        = g_violationCount g) rows
     \<and> sum_list (map g_violationCount rows) = 2"
proof -
  let ?vs = "[\<lparr> v_allLocations = Undefined, v_engine = Str ''pmd'', v_file = ''a.cls'',
           v_fullViolation = Obj [], v_id = ''R1-a.cls-1-0'', v_line = Num 1,
           v_message = Str ''m'', v_resource = Str [], v_rule = Str ''R1'',
           v_severity = Num 3, v_tags = Arr [Str ''Security''],
           v_severityLabel = ''3 (Moderate)'' \<rparr>,
        \<lparr> v_allLocations = Undefined, v_engine = Str ''eslint'', v_file = ''b.js'',
           v_fullViolation = Obj [], v_id = ''no-var-b.js-2-1'', v_line = Num 2,
           v_message = Str ''m'', v_resource = Str [], v_rule = Str ''no-var'',
           v_severity = Num 2, v_tags = Arr [], v_severityLabel = ''2 (High)'' \<rparr>,
        \<lparr> v_allLocations = Undefined, v_engine = Str ''pmd'', v_file = ''c.cls'',
           v_fullViolation = Obj [], v_id = ''R2-c.cls-3-2'', v_line = Num 3,
           v_message = Str ''m'', v_resource = Str [], v_rule = Str ''R2'',
           v_severity = Num 3, v_tags = Arr [], v_severityLabel = ''3 (Moderate)'' \<rparr>]"
  have "\<exists>engines rows.
          processViolationsByEngine (\<lambda>p k. None) ?vs (Str ''3'') = Inr engines
        \<and> transformEngineObjectsToArray (\<lambda>p k. None) engines True = Inr rows
        \<and> map g_label rows = [''pmd (2)'']"
    by (simp add: processViolationsByEngine_def filteredOut_def addViolation_def addToRules_def
        createEngineObject_def createRuleObject_def bindE_def mapE_def numberToString_def
        natToString.simps digit_def transformEngineObjectsToArray_def transformEngineObject_def
        objectValues_def isArrayIndex_def parseIndex_def spreadRule_def keyedRule_def
        tagsStringOf_def joinArray_def severityLabelOf_def SEVERITY_LABELS_def
        engineDescriptions_def inherited_def less_eq_char_def Let_def)
  moreover have n: "length (filter (\<lambda>v. filteredOut (Str ''3'') v = Inr False) ?vs) = 2"
    by (simp add: filteredOut_def bindE_def numberToString_def natToString.simps digit_def)
  ultimately show ?thesis
  proof (elim exE conjE)
    fix engines rows
    assume e: "processViolationsByEngine (\<lambda>p k. None) ?vs (Str ''3'') = Inr engines"
      and r: "transformEngineObjectsToArray (\<lambda>p k. None) engines True = Inr rows"
      and l: "map g_label rows = [''pmd (2)'']"
    from engine_grouping_counts[OF e r] n
    have c1: "list_all (\<lambda>g. sum_list (map (\<lambda>r. length (violationsOf r)) (g_rules g))
                        = g_violationCount g) rows"
      and c2: "sum_list (map g_violationCount rows) = 2"
      by (simp_all add: list_all_iff)
    show ?thesis
      by (rule exI[of _ engines], rule exI[of _ rows]) (intro conjI e r l c1 c2)
  qed
qed

subsection \<open>The commit table action handler\<close>

text \<open>
  Without a directory override the same template expands to one entry per site, the
  placeholder replaced by the site.
\<close>

lemma expandMetadata_sites_without_override:
  "expandMetadata
     [SFCC_METADATA \<mapsto> ''metadata/sites/<site-id>/settings'',
      SFCC_SITES \<mapsto> ''A'' @ [LF] @ ''B'']
   = Inr [''metadata/sites/A/settings'', ''metadata/sites/B/settings'']"
  by (simp add: expandMetadata_def expandTemplate_def replace_def SFCC_METADATA_def
      SFCC_SITES_def SFCC_METADATA_DIRECTORY_def LF_def CR_def)

text \<open>
  C3, evaluated where the code departs from it: for the template
  \<^verbatim>\<open>metadata/sites/<site-id>/settings\<close>, the sites \<^verbatim>\<open>A\<close> and \<^verbatim>\<open>B\<close> and the directory
  override \<^verbatim>\<open>data/\<close>, the expansion gives the same entry twice, with the placeholder
  still in it.
\<close>

theorem expandMetadata_override_keeps_placeholder:
  "expandMetadata
     [SFCC_METADATA \<mapsto> ''metadata/sites/<site-id>/settings'',
      SFCC_SITES \<mapsto> ''A'' @ [LF] @ ''B'',
      SFCC_METADATA_DIRECTORY \<mapsto> ''data/'']
   = Inr [''data/sites/<site-id>/settings'', ''data/sites/<site-id>/settings'']"
  by (simp add: expandMetadata_def expandTemplate_def replace_def SFCC_METADATA_def
      SFCC_SITES_def SFCC_METADATA_DIRECTORY_def LF_def CR_def)

text \<open>
  C5, as the code has it: when the platform's sort does what the language fixes for a
  consistent comparator, and the remote call resolves with a text that \<^verbatim>\<open>JSON.parse\<close>
  turns into an array of records whose \<^verbatim>\<open>n\<close> is a string, \<^verbatim>\<open>retrieveChanges\<close> publishes one
  message more, of type \<^verbatim>\<open>retrievedChanges\<close>. Its value is the list of the expanded metadata
  entries (operation \<^verbatim>\<open>Add\<close>, member type \<^verbatim>\<open>xml\<close>, category \<^verbatim>\<open>ccmetadata\<close>) followed by the
  changeset entries (operation \<^verbatim>\<open>Add\<close>; name, type, directory and category from \<^verbatim>\<open>n\<close>,
  \<^verbatim>\<open>t\<close>, \<^verbatim>\<open>m\<close>, \<^verbatim>\<open>c\<close> of each record), sorted by member name in ascending lexicographic
  order, entries with equal names in their original order.
\<close>

theorem retrieveChanges_publishes_sorted:
  assumes "sortsAsSpecified Array_sort"
    and "fetched = Resolved envMetadata" and "JSON_parse envMetadata = Some (Arr es)"
    and "\<forall>e\<in>set es. \<exists>name. getProp e ''n'' = Inr (Str name)"
  shows "\<exists>envObj val.
           length envObj = length es
         \<and> (\<forall>i<length es.
               Operation (envObj ! i) = ''Add''
             \<and> getProp (es ! i) ''n'' = Inr (MemberName (envObj ! i))
             \<and> getProp (es ! i) ''t'' = Inr (MemberType (envObj ! i))
             \<and> getProp (es ! i) ''m'' = Inr (Directory (envObj ! i))
             \<and> getProp (es ! i) ''c'' = Inr (Category (envObj ! i)))
         \<and> val = sort_key (\<lambda>e. case MemberName e of Str s \<Rightarrow> s | _ \<Rightarrow> [])
                    (map (\<lambda>file. \<lparr> Operation = ''Add'', MemberName = Str file,
                                    MemberType = Str ''xml'', Directory = Str [],
                                    LastModifiedDate = [], LastModifiedByName = [],
                                    Category = Str ''ccmetadata'' \<rparr>)
                         (this_filtered this)
                     @ envObj)
         \<and> sorted (map (\<lambda>e. case MemberName e of Str s \<Rightarrow> s | _ \<Rightarrow> []) val)
         \<and> published (retrieveChanges JSON_parse lt Array_sort fetched this)
             = published this @ [\<lparr> payload_type = ''retrievedChanges'', payload_value = val \<rparr>]"
proof -
  let ?k = "\<lambda>e. case MemberName e of Str s \<Rightarrow> s | _ \<Rightarrow> []"
  let ?meta = "map metadataEntry (this_filtered this)"
  have nn: "\<forall>e\<in>set es. e \<noteq> Null \<and> e \<noteq> Undefined"
    using assms(4) getProp_Inr_not_nullish by blast
  then have "\<forall>e\<in>set es. \<exists>y. changeEntry e = Inr y"
    using changeEntry_Inr by blast
  from mapE_total[OF this] obtain envObj where env: "mapE changeEntry es = Inr envObj" by blast
  have len: "length envObj = length es" using mapE_Inr_nth(1)[OF env] .
  have fields: "Operation (envObj ! i) = ''Add''
             \<and> getProp (es ! i) ''n'' = Inr (MemberName (envObj ! i))
             \<and> getProp (es ! i) ''t'' = Inr (MemberType (envObj ! i))
             \<and> getProp (es ! i) ''m'' = Inr (Directory (envObj ! i))
             \<and> getProp (es ! i) ''c'' = Inr (Category (envObj ! i))" if i: "i < length es" for i
  proof -
    from i nn have "es ! i \<noteq> Null" "es ! i \<noteq> Undefined" by auto
    from changeEntry_Inr[OF this] mapE_Inr_nth(2)[OF env i] show ?thesis by auto
  qed
  have names: "\<forall>y\<in>set (?meta @ envObj). \<exists>b. MemberName y = Str b"
  proof
    fix y assume "y \<in> set (?meta @ envObj)"
    then consider "y \<in> set ?meta" | "y \<in> set envObj" by auto
    then show "\<exists>b. MemberName y = Str b"
    proof cases
      case 1
      then show ?thesis by (auto simp: metadataEntry_def)
    next
      case 2
      then obtain i where i: "i < length es" "y = envObj ! i"
        using len by (metis in_set_conv_nth)
      from assms(4) i(1) obtain name where "getProp (es ! i) ''n'' = Inr (Str name)"
        by (meson nth_mem)
      with fields[OF i(1)] i(2) show ?thesis by (metis sum.inject(2))
    qed
  qed
  let ?val = "sort_key ?k (?meta @ envObj)"
  have pub: "published (retrieveChanges JSON_parse lt Array_sort fetched this)
             = published this @ [\<lparr> payload_type = ''retrievedChanges'', payload_value = ?val \<rparr>]"
    using assms(2,3) env Array_sort_sort_key[OF assms(1) names, of lt]
    by (simp add: retrieveChanges_def tryBlock_def bindE_def Let_def)
  have meta: "?meta = map (\<lambda>file. \<lparr> Operation = ''Add'', MemberName = Str file,
                                    MemberType = Str ''xml'', Directory = Str [],
                                    LastModifiedDate = [], LastModifiedByName = [],
                                    Category = Str ''ccmetadata'' \<rparr>)
                         (this_filtered this)"
    by (simp add: metadataEntry_def)
  have "sorted (map ?k ?val)" by (rule sorted_sort_key)
  with len fields pub meta show ?thesis by auto
qed

theorem retrieveChanges_publishes_sorted_witness:
  \<open>sortsAsSpecified (stableSort :: sorter)
   \<and> published
     (retrieveChanges
        [''[{"n":"classes/B.cls","t":"ApexClass","m":"force-app","c":"sfdx"}]'' \<mapsto>
           Arr [Obj [(''n'', Str ''classes/B.cls''), (''t'', Str ''ApexClass''),
                     (''m'', Str ''force-app''), (''c'', Str ''sfdx'')]]]
        (\<lambda>a b. False) stableSort
        (Resolved ''[{"n":"classes/B.cls","t":"ApexClass","m":"force-app","c":"sfdx"}]'')
        (initialCommitTableActions \<lparr> this_filtered := [''sites/B'', ''a.xml''] \<rparr>))
   = [\<lparr> payload_type = ''retrievedChanges'',
        payload_value =
          [\<lparr> Operation = ''Add'', MemberName = Str ''a.xml'', MemberType = Str ''xml'',
              Directory = Str [], LastModifiedDate = [], LastModifiedByName = [],
              Category = Str ''ccmetadata'' \<rparr>,
           \<lparr> Operation = ''Add'', MemberName = Str ''classes/B.cls'',
              MemberType = Str ''ApexClass'', Directory = Str ''force-app'',
              LastModifiedDate = [], LastModifiedByName = [], Category = Str ''sfdx'' \<rparr>,
           \<lparr> Operation = ''Add'', MemberName = Str ''sites/B'', MemberType = Str ''xml'',
              Directory = Str [], LastModifiedDate = [], LastModifiedByName = [],
              Category = Str ''ccmetadata'' \<rparr>] \<rparr>]\<close>
proof -
  have c: "sortsAsSpecified (stableSort :: sorter)"
    by (simp add: sortsAsSpecified_def)
  from retrieveChanges_publishes_sorted
    [OF c,
     where fetched = \<open>Resolved ''[{"n":"classes/B.cls","t":"ApexClass","m":"force-app","c":"sfdx"}]''\<close>
       and envMetadata = \<open>''[{"n":"classes/B.cls","t":"ApexClass","m":"force-app","c":"sfdx"}]''\<close>
       and JSON_parse = \<open>[''[{"n":"classes/B.cls","t":"ApexClass","m":"force-app","c":"sfdx"}]'' \<mapsto>
           Arr [Obj [(''n'', Str ''classes/B.cls''), (''t'', Str ''ApexClass''),
                     (''m'', Str ''force-app''), (''c'', Str ''sfdx'')]]]\<close>
       and es = \<open>[Obj [(''n'', Str ''classes/B.cls''), (''t'', Str ''ApexClass''),
                     (''m'', Str ''force-app''), (''c'', Str ''sfdx'')]]\<close>
       and lt = \<open>\<lambda>a b. False\<close>
       and this = \<open>initialCommitTableActions \<lparr> this_filtered := [''sites/B'', ''a.xml''] \<rparr>\<close>]
    c
  show ?thesis
    by (simp add: retrieveChanges_def tryBlock_def bindE_def mapE_def changeEntry_def
        metadataEntry_def stableSort_def byMemberName_def lessThan_js_def Let_def
        initialCommitTableActions_def less_char_def)
qed

text \<open>
  C5 as stated fails when a name is not a string. For \<^verbatim>\<open>[{"n":"c"},{},{"n":"a"}]\<close> the
  comparator answers zero whenever the missing name is on one side, and a sort that inserts
  or merges stably leaves the three entries where they are, \<^verbatim>\<open>c\<close> before \<^verbatim>\<open>a\<close>. For
  \<^verbatim>\<open>[{"n":10},{"n":9}]\<close> the comparator is a consistent ordering, so the language fixes the
  order: 9 is published before 10, and the text of 9 does not come before the text of 10.
\<close>

theorem retrieveChanges_unsorted_counterexample:
  \<open>map (\<lambda>p. map MemberName (payload_value p))
     (published
        (retrieveChanges
           [''[{"n":"c"},{},{"n":"a"}]'' \<mapsto>
              Arr [Obj [(''n'', Str ''c'')], Obj [], Obj [(''n'', Str ''a'')]]]
           (\<lambda>a b. False) stableSort (Resolved ''[{"n":"c"},{},{"n":"a"}]'')
           initialCommitTableActions))
   = [[Str ''c'', Undefined, Str ''a'']]
   \<and> \<not> (''c'' \<le> ''a'')
   \<and> map (\<lambda>p. map MemberName (payload_value p))
       (published
          (retrieveChanges
             [''[{"n":10},{"n":9}]'' \<mapsto> Arr [Obj [(''n'', Num 10)], Obj [(''n'', Num 9)]]]
             (\<lambda>a b. False) stableSort (Resolved ''[{"n":10},{"n":9}]'')
             initialCommitTableActions))
     = [[Num 9, Num 10]]
   \<and> consistentComparator (byMemberName (\<lambda>a b. False))
       {\<lparr> Operation = ''Add'', MemberName = Num 10, MemberType = Undefined,
           Directory = Undefined, LastModifiedDate = [], LastModifiedByName = [],
           Category = Undefined \<rparr>,
        \<lparr> Operation = ''Add'', MemberName = Num 9, MemberType = Undefined,
           Directory = Undefined, LastModifiedDate = [], LastModifiedByName = [],
           Category = Undefined \<rparr>}
   \<and> toString (Num 9) = Inr ''9'' \<and> toString (Num 10) = Inr ''10''
   \<and> \<not> (''9'' \<le> ''10'')\<close>
  by (simp add: retrieveChanges_def tryBlock_def bindE_def mapE_def changeEntry_def
      stableSort_def byMemberName_def lessThan_js_def Let_def initialCommitTableActions_def
      consistentComparator_def less_char_def less_eq_char_def numberToString_def
      natToString.simps digit_def)

text \<open>
  C6: when the remote call rejects, or resolves with a text on which \<^verbatim>\<open>JSON.parse\<close>
  throws, \<^verbatim>\<open>retrieveChanges\<close> changes the component in two ways only: one exception entry
  is logged and \<^verbatim>\<open>_isWorking\<close> is false. Nothing is published, and the remote call, which
  the function makes once, is not made again.
\<close>

theorem retrieveChanges_fetch_failure:
  "fetched = Rejected \<or> (\<exists>t. fetched = Resolved t \<and> JSON_parse t = None) \<Longrightarrow>
   retrieveChanges JSON_parse lt Array_sort fetched this =
     this \<lparr> this_isWorking := False, console := console this @ [LogException] \<rparr>
   \<and> published (retrieveChanges JSON_parse lt Array_sort fetched this) = published this
   \<and> this_isWorking (retrieveChanges JSON_parse lt Array_sort fetched this) = False"
  by (auto simp: retrieveChanges_def tryBlock_def)

theorem retrieveChanges_fetch_failure_witness:
  "published (retrieveChanges Map.empty (\<lambda>a b. False) stableSort Rejected
          initialCommitTableActions) = []
   \<and> console (retrieveChanges Map.empty (\<lambda>a b. False) stableSort Rejected
          initialCommitTableActions)
       = [LogException]
   \<and> this_isWorking
       (retrieveChanges Map.empty (\<lambda>a b. False) stableSort Rejected
          initialCommitTableActions) = False
   \<and> published
       (retrieveChanges Map.empty (\<lambda>a b. False) stableSort (Resolved ''<html>'')
          initialCommitTableActions)
       = []
   \<and> console
       (retrieveChanges Map.empty (\<lambda>a b. False) stableSort (Resolved ''<html>'')
          initialCommitTableActions)
       = [LogException]"
  using retrieveChanges_fetch_failure
          [of Rejected Map.empty "\<lambda>a b. False" stableSort initialCommitTableActions]
        retrieveChanges_fetch_failure
          [of "Resolved ''<html>''" Map.empty "\<lambda>a b. False" stableSort
              initialCommitTableActions]
  by (simp add: initialCommitTableActions_def)

end
